theory Spec2Isabelle
  imports Complex_Main "HOL-Library.AList"
begin

section \<open>Numbers and strings of the host language\<close>

text \<open>
  A source \<open>number\<close> is modelled as an exact rational or \<open>NaN\<close>. Rounding of doubles
  and the two infinities are outside the model. Strings are lists of 8-bit code units.
\<close>

datatype number = NaN | Fin rat

fun nadd :: "number \<Rightarrow> number \<Rightarrow> number" where
  "nadd (Fin a) (Fin b) = Fin (a + b)"
| "nadd _ _ = NaN"

fun nmul :: "number \<Rightarrow> number \<Rightarrow> number" where
  "nmul (Fin a) (Fin b) = Fin (a * b)"
| "nmul _ _ = NaN"

fun nsub :: "number \<Rightarrow> number \<Rightarrow> number" where
  "nsub (Fin a) (Fin b) = Fin (a - b)"
| "nsub _ _ = NaN"

text \<open>Comparisons with \<open>NaN\<close> on either side are false.\<close>

fun nle :: "number \<Rightarrow> number \<Rightarrow> bool" where
  "nle (Fin a) (Fin b) = (a \<le> b)"
| "nle _ _ = False"

fun nlt :: "number \<Rightarrow> number \<Rightarrow> bool" where
  "nlt (Fin a) (Fin b) = (a < b)"
| "nlt _ _ = False"

definition nge :: "number \<Rightarrow> number \<Rightarrow> bool" where
  "nge a b = nle b a"

definition code :: "char \<Rightarrow> nat" where
  "code c = of_char c"

definition isDigit :: "char \<Rightarrow> bool" where
  "isDigit c = (48 \<le> code c \<and> code c \<le> 57)"

definition digitVal :: "char \<Rightarrow> nat" where
  "digitVal c = code c - 48"

text \<open>White space and line terminators among the 8-bit code units.\<close>

definition isWhite :: "char \<Rightarrow> bool" where
  "isWhite c = (code c \<in> {9, 10, 11, 12, 13, 32, 160})"

definition trim :: "string \<Rightarrow> string" where
  "trim s = rev (dropWhile isWhite (rev (dropWhile isWhite s)))"

text \<open>\<open>s.slice(a, b)\<close> for \<open>0 \<le> a \<le> b\<close>.\<close>

definition slice :: "nat \<Rightarrow> nat \<Rightarrow> string \<Rightarrow> string" where
  "slice a b s = take (b - a) (drop a s)"

subsection \<open>String to number conversion\<close>

definition digitsVal :: "string \<Rightarrow> nat" where
  "digitsVal ds = foldl (\<lambda>a c. 10 * a + digitVal c) 0 ds"

definition hexVal :: "char \<Rightarrow> nat option" where
  "hexVal c =
     (if isDigit c then Some (digitVal c)
      else if 97 \<le> code c \<and> code c \<le> 102 then Some (code c - 87)
      else if 65 \<le> code c \<and> code c \<le> 70 then Some (code c - 55)
      else None)"

fun radixVal :: "nat \<Rightarrow> nat \<Rightarrow> string \<Rightarrow> nat option" where
  "radixVal b acc [] = Some acc"
| "radixVal b acc (c # cs) =
     (case hexVal c of
        None \<Rightarrow> None
      | Some d \<Rightarrow> if d < b then radixVal b (b * acc + d) cs else None)"

text \<open>\<open>0x\<close>, \<open>0o\<close> and \<open>0b\<close> literals: a prefix and at least one digit, no sign.\<close>

fun nonDecimal :: "string \<Rightarrow> nat option" where
  "nonDecimal (z # p # d # ds) =
     (if z \<noteq> CHR ''0'' then None
      else if p = CHR ''x'' \<or> p = CHR ''X'' then radixVal 16 0 (d # ds)
      else if p = CHR ''o'' \<or> p = CHR ''O'' then radixVal 8 0 (d # ds)
      else if p = CHR ''b'' \<or> p = CHR ''B'' then radixVal 2 0 (d # ds)
      else None)"
| "nonDecimal _ = None"

text \<open>The exponent part: empty, or \<open>e\<close>/\<open>E\<close>, an optional sign and at least one digit.\<close>

definition signedInteger :: "string \<Rightarrow> int option" where
  "signedInteger s =
     (let (neg, ds) = (case s of
                         c # t \<Rightarrow> if c = CHR ''-'' then (True, t)
                                  else if c = CHR ''+'' then (False, t) else (False, s)
                       | [] \<Rightarrow> (False, s))
      in if ds \<noteq> [] \<and> list_all isDigit ds
         then Some (if neg then - int (digitsVal ds) else int (digitsVal ds))
         else None)"

definition exponentPart :: "string \<Rightarrow> int option" where
  "exponentPart s =
     (case s of
        [] \<Rightarrow> Some 0
      | c # t \<Rightarrow> if c = CHR ''e'' \<or> c = CHR ''E'' then signedInteger t else None)"

definition scale10 :: "rat \<Rightarrow> int \<Rightarrow> rat" where
  "scale10 m e = (if 0 \<le> e then m * 10 ^ nat e else m / 10 ^ nat (- e))"

text \<open>
  An unsigned decimal literal: digits, an optional point with optional digits, an
  optional exponent; at least one digit before or after the point.
\<close>

definition unsignedDecimal :: "string \<Rightarrow> rat option" where
  "unsignedDecimal s =
     (let ip = takeWhile isDigit s;
          r1 = dropWhile isDigit s;
          (fp, r2) = (case r1 of
                        c # t \<Rightarrow> if c = CHR ''.''
                                 then (takeWhile isDigit t, dropWhile isDigit t)
                                 else ([], r1)
                      | [] \<Rightarrow> ([], r1))
      in if ip = [] \<and> fp = [] then None
         else (case exponentPart r2 of
                 None \<Rightarrow> None
               | Some e \<Rightarrow>
                   Some (scale10 (of_nat (digitsVal ip)
                                  + of_nat (digitsVal fp) / 10 ^ length fp) e)))"

text \<open>
  \<open>Number(s)\<close> on a string. The literal \<open>Infinity\<close> is not modelled: it needs eight
  characters, and every call below passes a slice of at most two.
\<close>

definition Number :: "string \<Rightarrow> number" where
  "Number s =
     (let t = trim s in
      if t = [] then Fin 0
      else (case nonDecimal t of
              Some n \<Rightarrow> Fin (of_nat n)
            | None \<Rightarrow>
                (case t of
                   c # u \<Rightarrow>
                     if c = CHR ''-'' then
                       (case unsignedDecimal u of None \<Rightarrow> NaN | Some v \<Rightarrow> Fin (- v))
                     else if c = CHR ''+'' then
                       (case unsignedDecimal u of None \<Rightarrow> NaN | Some v \<Rightarrow> Fin v)
                     else
                       (case unsignedDecimal t of None \<Rightarrow> NaN | Some v \<Rightarrow> Fin v)
                 | [] \<Rightarrow> Fin 0)))"

section \<open>Time utilities\<close>

text \<open>
  \<open>toMin\<close>: \<open>null\<close> (here \<open>None\<close>) for an absent or empty string, otherwise
  \<open>Number(t.slice(0, 2)) * 60 + Number(t.slice(3, 5))\<close>, which may be \<open>NaN\<close>.
\<close>

fun toMin :: "string option \<Rightarrow> number option" where
  "toMin None = None"
| "toMin (Some t) =
     (if t = [] then None
      else Some (nadd (nmul (Number (slice 0 2 t)) (Fin 60)) (Number (slice 3 5 t))))"

text \<open>The pattern \<open>/^\d{2}:\d{2}$/\<close>.\<close>

fun matchesHHMM :: "string \<Rightarrow> bool" where
  "matchesHHMM [a, b, c, d, e] =
     (isDigit a \<and> isDigit b \<and> c = CHR '':'' \<and> isDigit d \<and> isDigit e)"
| "matchesHHMM _ = False"

definition isValidHHMM :: "string \<Rightarrow> bool" where
  "isValidHHMM t =
     (if \<not> matchesHHMM t then False
      else (case toMin (Some t) of
              None \<Rightarrow> False
            | Some m \<Rightarrow> nge m (Fin 0) \<and> nlt m (Fin (24 * 60))))"

section \<open>Attendance records and meal eligibility\<close>

datatype source = Auto | Manual

datatype stamp = ServerTimestamp | Stored nat

record RecordRow =
  id :: string
  date :: string
  kidId :: string
  kidName :: string
  inTime :: "string option"
  outTime :: "string option"
  breakfast :: number
  amSnack :: number
  lunch :: number
  pmSnack :: number
  source :: "source option"
  editedBy :: "string option"
  editReason :: "string option"
  updatedAt :: "stamp option"

definition MEALS_breakfast_start :: string where "MEALS_breakfast_start = ''09:00''"
definition MEALS_breakfast_end :: string where "MEALS_breakfast_end = ''09:30''"
definition MEALS_amSnack :: string where "MEALS_amSnack = ''11:00''"
definition MEALS_lunch :: string where "MEALS_lunch = ''13:00''"
definition MEALS_pmSnack :: string where "MEALS_pmSnack = ''15:00''"

text \<open>The non-null assertion \<open>x!\<close>; a \<open>null\<close> would compare as \<open>0\<close>.\<close>

fun nonNull :: "number option \<Rightarrow> number" where
  "nonNull None = Fin 0"
| "nonNull (Some v) = v"

definition flag :: "bool \<Rightarrow> number" where
  "flag b = (if b then Fin 1 else Fin 0)"

definition at_instant :: "number \<Rightarrow> number \<Rightarrow> string \<Rightarrow> bool" where
  "at_instant i out t = (let m = nonNull (toMin (Some t)) in nle i m \<and> nge out m)"

definition calcMeals :: "RecordRow \<Rightarrow> RecordRow" where
  "calcMeals r =
     (let i = toMin (inTime r);
          out = (case toMin (outTime r) of None \<Rightarrow> Fin (24 * 60) | Some v \<Rightarrow> v)
      in case i of
           None \<Rightarrow> r
         | Some i \<Rightarrow>
             (let bS = nonNull (toMin (Some MEALS_breakfast_start));
                  bE = nonNull (toMin (Some MEALS_breakfast_end))
              in r\<lparr>breakfast := flag (nle i bE \<and> nge out bS),
                    amSnack := flag (at_instant i out MEALS_amSnack),
                    lunch := flag (at_instant i out MEALS_lunch),
                    pmSnack := flag (at_instant i out MEALS_pmSnack)\<rparr>))"

section \<open>Documents of the store\<close>

text \<open>
  A written or read document is an object: a list of properties. \<open>Undefined\<close> is the
  placeholder the store does not accept.
\<close>

datatype jsval = Undefined | JStr string | JNum number | JStamp stamp

type_synonym obj = "(string \<times> jsval) list"

text \<open>
  \<open>stripUndefined\<close>: the loop over \<open>Object.entries(obj)\<close> that copies every property
  whose value is not \<open>undefined\<close> into a fresh object.
\<close>

definition stripStep :: "string \<times> jsval \<Rightarrow> obj \<Rightarrow> obj" where
  "stripStep = (\<lambda>(k, v) out. if v \<noteq> Undefined then AList.update k v out else out)"

definition stripUndefined :: "obj \<Rightarrow> obj" where
  "stripUndefined ob = fold stripStep ob []"

fun optStr :: "string option \<Rightarrow> jsval" where
  "optStr None = Undefined"
| "optStr (Some s) = JStr s"

fun optSource :: "source option \<Rightarrow> jsval" where
  "optSource None = Undefined"
| "optSource (Some Auto) = JStr ''auto''"
| "optSource (Some Manual) = JStr ''manual''"

fun optStamp :: "stamp option \<Rightarrow> jsval" where
  "optStamp None = Undefined"
| "optStamp (Some t) = JStamp t"

text \<open>The properties of a record seen as an object; an unset optional field reads \<open>undefined\<close>.\<close>

definition entries :: "RecordRow \<Rightarrow> obj" where
  "entries r =
     [(''id'', JStr (id r)), (''date'', JStr (date r)),
      (''kidId'', JStr (kidId r)), (''kidName'', JStr (kidName r)),
      (''inTime'', optStr (inTime r)), (''outTime'', optStr (outTime r)),
      (''breakfast'', JNum (breakfast r)), (''amSnack'', JNum (amSnack r)),
      (''lunch'', JNum (lunch r)), (''pmSnack'', JNum (pmSnack r)),
      (''source'', optSource (source r)), (''editedBy'', optStr (editedBy r)),
      (''editReason'', optStr (editReason r)), (''updatedAt'', optStamp (updatedAt r))]"

text \<open>
  One property of a spread written over a record. A value that the declared type of the
  field excludes, and a property that is no field of the record, leave the record as it is.
\<close>

definition assign :: "string \<times> jsval \<Rightarrow> RecordRow \<Rightarrow> RecordRow" where
  "assign kv r =
     (let k = fst kv; v = snd kv in
      if k = ''id'' then (case v of JStr s \<Rightarrow> r\<lparr>id := s\<rparr> | _ \<Rightarrow> r)
      else if k = ''date'' then (case v of JStr s \<Rightarrow> r\<lparr>date := s\<rparr> | _ \<Rightarrow> r)
      else if k = ''kidId'' then (case v of JStr s \<Rightarrow> r\<lparr>kidId := s\<rparr> | _ \<Rightarrow> r)
      else if k = ''kidName'' then (case v of JStr s \<Rightarrow> r\<lparr>kidName := s\<rparr> | _ \<Rightarrow> r)
      else if k = ''inTime'' then
        (case v of JStr s \<Rightarrow> r\<lparr>inTime := Some s\<rparr> | Undefined \<Rightarrow> r\<lparr>inTime := None\<rparr> | _ \<Rightarrow> r)
      else if k = ''outTime'' then
        (case v of JStr s \<Rightarrow> r\<lparr>outTime := Some s\<rparr> | Undefined \<Rightarrow> r\<lparr>outTime := None\<rparr> | _ \<Rightarrow> r)
      else if k = ''breakfast'' then (case v of JNum n \<Rightarrow> r\<lparr>breakfast := n\<rparr> | _ \<Rightarrow> r)
      else if k = ''amSnack'' then (case v of JNum n \<Rightarrow> r\<lparr>amSnack := n\<rparr> | _ \<Rightarrow> r)
      else if k = ''lunch'' then (case v of JNum n \<Rightarrow> r\<lparr>lunch := n\<rparr> | _ \<Rightarrow> r)
      else if k = ''pmSnack'' then (case v of JNum n \<Rightarrow> r\<lparr>pmSnack := n\<rparr> | _ \<Rightarrow> r)
      else if k = ''source'' then
        (case v of
           JStr s \<Rightarrow> if s = ''auto'' then r\<lparr>source := Some Auto\<rparr>
                     else if s = ''manual'' then r\<lparr>source := Some Manual\<rparr> else r
         | Undefined \<Rightarrow> r\<lparr>source := None\<rparr>
         | _ \<Rightarrow> r)
      else if k = ''editedBy'' then
        (case v of JStr s \<Rightarrow> r\<lparr>editedBy := Some s\<rparr> | Undefined \<Rightarrow> r\<lparr>editedBy := None\<rparr> | _ \<Rightarrow> r)
      else if k = ''editReason'' then
        (case v of JStr s \<Rightarrow> r\<lparr>editReason := Some s\<rparr> | Undefined \<Rightarrow> r\<lparr>editReason := None\<rparr>
         | _ \<Rightarrow> r)
      else if k = ''updatedAt'' then
        (case v of JStamp t \<Rightarrow> r\<lparr>updatedAt := Some t\<rparr> | Undefined \<Rightarrow> r\<lparr>updatedAt := None\<rparr>
         | _ \<Rightarrow> r)
      else r)"

text \<open>\<open>{...base, ...ob}\<close>: the properties of \<open>ob\<close> written over \<open>base\<close> in order.\<close>

definition spread :: "RecordRow \<Rightarrow> obj \<Rightarrow> RecordRow" where
  "spread base ob = fold assign ob base"

text \<open>
  \<open>existing.data() as RecordRow\<close>: the unchecked cast of a stored document. A field the
  document lacks reads \<open>undefined\<close>; for the fields typed as present this is modelled by
  the empty string and \<open>NaN\<close>.
\<close>

definition blankRow :: RecordRow where
  "blankRow =
     \<lparr>id = [], date = [], kidId = [], kidName = [], inTime = None, outTime = None,
      breakfast = NaN, amSnack = NaN, lunch = NaN, pmSnack = NaN,
      source = None, editedBy = None, editReason = None, updatedAt = None\<rparr>"

definition asRecordRow :: "obj \<Rightarrow> RecordRow" where
  "asRecordRow d = spread blankRow d"

section \<open>The record reconciler and the operations built on it\<close>

record Kid =
  kid_id :: string
  kid_name :: string
  active :: bool

datatype status = Idle | Saving | SavedOk | Clearing | ClearedOk

datatype error = StoreRejectedUndefined

text \<open>
  The component's state: the signed-in user's uid, the selected date, the record
  documents of the store (keyed by uid and document id), the manual-edit form and the
  status line (\<open>Idle\<close> is the empty status text).
\<close>

record app =
  user :: "string option"
  curDate :: string
  docs :: "string \<times> string \<rightharpoonup> obj"
  editingKidId :: "string option"
  editIn :: string
  editOut :: string
  editReasonText :: string
  saveStatus :: status

text \<open>
  Modelled from the spec: the external document store's write, which is a library call
  and not part of the source files. It rejects a document that holds an \<open>undefined\<close>
  placeholder and otherwise replaces the document under the key.
\<close>

definition setDoc ::
  "string \<times> string \<Rightarrow> obj \<Rightarrow> (string \<times> string \<rightharpoonup> obj) \<Rightarrow> error + (string \<times> string \<rightharpoonup> obj)" where
  "setDoc ref d st =
     (if list_ex (\<lambda>kv. snd kv = Undefined) d then Inl StoreRejectedUndefined
      else Inr (st(ref \<mapsto> d)))"

definition recordId :: "string \<Rightarrow> Kid \<Rightarrow> string" where
  "recordId d kid = d @ ''_'' @ kid_id kid"

definition defaultRow :: "string \<Rightarrow> Kid \<Rightarrow> RecordRow" where
  "defaultRow d kid =
     \<lparr>id = recordId d kid, date = d, kidId = kid_id kid, kidName = kid_name kid,
      inTime = Some [], outTime = Some [],
      breakfast = Fin 0, amSnack = Fin 0, lunch = Fin 0, pmSnack = Fin 0,
      source = Some Auto, editedBy = None, editReason = Some [], updatedAt = None\<rparr>"

text \<open>The base record, the merged and recalculated record, and the document written.\<close>

definition baseRecord :: "Kid \<Rightarrow> string \<Rightarrow> app \<Rightarrow> RecordRow" where
  "baseRecord kid uid s =
     (case docs s (uid, recordId (curDate s) kid) of
        Some d \<Rightarrow> asRecordRow d
      | None \<Rightarrow> defaultRow (curDate s) kid)"

definition mergedRecord :: "RecordRow \<Rightarrow> obj \<Rightarrow> RecordRow" where
  "mergedRecord base patch =
     (let cleanedPatch = stripUndefined patch
      in calcMeals (spread base (cleanedPatch @ [(''updatedAt'', JStamp ServerTimestamp)])))"

definition upsertRecord :: "Kid \<Rightarrow> obj \<Rightarrow> app \<Rightarrow> error + app" where
  "upsertRecord kid patch s =
     (case user s of
        None \<Rightarrow> Inr s
      | Some uid \<Rightarrow>
          (let ref = (uid, recordId (curDate s) kid);
               base = baseRecord kid uid s;
               merged = mergedRecord base patch
           in case setDoc ref (stripUndefined (entries merged)) (docs s) of
                Inl e \<Rightarrow> Inl e
              | Inr st \<Rightarrow> Inr (s\<lparr>docs := st\<rparr>)))"

text \<open>\<open>user?.uid\<close>.\<close>

definition uidOf :: "app \<Rightarrow> jsval" where
  "uidOf s = optStr (user s)"

text \<open>Check-in and check-out; the wall-clock string \<open>now\<close> is a parameter.\<close>

definition checkInPatch :: "string \<Rightarrow> app \<Rightarrow> obj" where
  "checkInPatch now s =
     [(''inTime'', JStr now), (''source'', JStr ''auto''), (''editedBy'', uidOf s),
      (''editReason'', JStr ''Check-in button'')]"

definition checkIn :: "string \<Rightarrow> Kid \<Rightarrow> app \<Rightarrow> string option \<times> app" where
  "checkIn now kid s =
     (case upsertRecord kid (checkInPatch now s) s of
        Inl e \<Rightarrow> (Some ''Check-in failed. See console for error.'', s)
      | Inr s' \<Rightarrow> (None, s'))"

definition checkOutPatch :: "string \<Rightarrow> app \<Rightarrow> obj" where
  "checkOutPatch now s =
     [(''outTime'', JStr now), (''source'', JStr ''auto''), (''editedBy'', uidOf s),
      (''editReason'', JStr ''Check-out button'')]"

definition checkOut :: "string \<Rightarrow> Kid \<Rightarrow> app \<Rightarrow> string option \<times> app" where
  "checkOut now kid s =
     (case upsertRecord kid (checkOutPatch now s) s of
        Inl e \<Rightarrow> (Some ''Check-out failed. See console for error.'', s)
      | Inr s' \<Rightarrow> (None, s'))"

definition clearPatch :: "app \<Rightarrow> obj" where
  "clearPatch s =
     [(''inTime'', JStr []), (''outTime'', JStr []),
      (''breakfast'', JNum (Fin 0)), (''amSnack'', JNum (Fin 0)),
      (''lunch'', JNum (Fin 0)), (''pmSnack'', JNum (Fin 0)),
      (''source'', JStr ''manual''), (''editedBy'', uidOf s),
      (''editReason'', JStr ''Cleared times'')]"

definition clearTimes :: "Kid \<Rightarrow> app \<Rightarrow> string option \<times> app" where
  "clearTimes kid s =
     (case upsertRecord kid (clearPatch s) (s\<lparr>saveStatus := Clearing\<rparr>) of
        Inl e \<Rightarrow> (Some ''Clear failed. See console for error.'', s\<lparr>saveStatus := Idle\<rparr>)
      | Inr s' \<Rightarrow> (None, s'\<lparr>saveStatus := ClearedOk\<rparr>))"

text \<open>
  The manual edit. The three guards return before any call of the reconciler; each
  resets the status line and raises an alert. The timer that later empties the status
  line after a successful save is not modelled.
\<close>

definition manualPatch :: "app \<Rightarrow> obj" where
  "manualPatch s =
     (let inTrim = trim (editIn s);
          outTrim = trim (editOut s);
          reasonTrim = trim (editReasonText s)
      in [(''inTime'', JStr inTrim),
          (''outTime'', JStr (if outTrim \<noteq> [] then outTrim else [])),
          (''source'', JStr ''manual''), (''editedBy'', uidOf s)]
         @ (if reasonTrim \<noteq> [] then [(''editReason'', JStr reasonTrim)] else []))"

definition saveManualTimes :: "Kid \<Rightarrow> app \<Rightarrow> string option \<times> app" where
  "saveManualTimes kid s =
     (let inTrim = trim (editIn s);
          outTrim = trim (editOut s)
      in if inTrim = [] \<or> \<not> isValidHHMM inTrim then
           (Some ''Please enter a valid In time (HH:MM).'', s\<lparr>saveStatus := Idle\<rparr>)
         else if outTrim \<noteq> [] \<and> \<not> isValidHHMM outTrim then
           (Some ''Out time must be blank or a valid HH:MM.'', s\<lparr>saveStatus := Idle\<rparr>)
         else if outTrim \<noteq> []
                 \<and> nlt (nonNull (toMin (Some outTrim))) (nonNull (toMin (Some inTrim))) then
           (Some ''Out time cannot be earlier than In time.'', s\<lparr>saveStatus := Idle\<rparr>)
         else
           (case upsertRecord kid (manualPatch s) (s\<lparr>saveStatus := Saving\<rparr>) of
              Inl e \<Rightarrow> (Some ''Save failed. See console for error.'', s\<lparr>saveStatus := Idle\<rparr>)
            | Inr s' \<Rightarrow> (None, s'\<lparr>saveStatus := SavedOk, editingKidId := None\<rparr>)))"

section \<open>Rate resolution\<close>

record ReimbursementRates =
  rate_year :: number
  rate_breakfast :: number
  rate_snack :: number
  rate_lunch :: number
  rate_updatedAt :: "stamp option"

text \<open>
  \<open>ratesByYear\<close>: an object keyed by year. A property read is \<open>map_of\<close>; \<open>Object.keys\<close>
  followed by \<open>map(Number)\<close> gives back the numeric keys.
\<close>

type_synonym rates_map = "(number \<times> ReimbursementRates) list"

definition isFinite :: "number \<Rightarrow> bool" where
  "isFinite n = (n \<noteq> NaN)"

text \<open>
  \<open>Array.prototype.sort\<close> with a comparator is a stable sort, modelled as insertion sort:
  an element moves behind those the comparator places it after. A comparator result of
  \<open>NaN\<close> counts as \<open>0\<close>.
\<close>

fun insertBy :: "('a \<Rightarrow> 'a \<Rightarrow> number) \<Rightarrow> 'a \<Rightarrow> 'a list \<Rightarrow> 'a list" where
  "insertBy cmp x [] = [x]"
| "insertBy cmp x (y # ys) =
     (if nlt (Fin 0) (cmp x y) then y # insertBy cmp x ys else x # y # ys)"

definition sortBy :: "('a \<Rightarrow> 'a \<Rightarrow> number) \<Rightarrow> 'a list \<Rightarrow> 'a list" where
  "sortBy cmp xs = foldr (insertBy cmp) xs []"

text \<open>The loop over the sorted years: keep the last year not above \<open>y\<close>, stop at the first above.\<close>

fun bestYear :: "number list \<Rightarrow> number \<Rightarrow> number option \<Rightarrow> number option" where
  "bestYear [] y best = best"
| "bestYear (yr # rest) y best = (if nle yr y then bestYear rest y (Some yr) else best)"

definition zeroRates :: "number \<Rightarrow> ReimbursementRates" where
  "zeroRates y =
     \<lparr>rate_year = y, rate_breakfast = Fin 0, rate_snack = Fin 0, rate_lunch = Fin 0,
      rate_updatedAt = None\<rparr>"

text \<open>
  \<open>getRatesForYear\<close>. The read \<open>ratesByYear[best]\<close> always finds a property, since \<open>best\<close>
  is one of the keys (lemma \<open>bestYear_years\<close> below); the branch for a missing property
  is never taken.
\<close>

definition getRatesForYear :: "rates_map \<Rightarrow> number \<Rightarrow> ReimbursementRates" where
  "getRatesForYear ratesByYear y =
     (case map_of ratesByYear y of
        Some exact \<Rightarrow> exact
      | None \<Rightarrow>
          (let years = sortBy nsub (filter isFinite (map fst ratesByYear))
           in case bestYear years y None of
                Some best \<Rightarrow>
                  (case map_of ratesByYear best of Some r \<Rightarrow> r | None \<Rightarrow> zeroRates y)
              | None \<Rightarrow> zeroRates y))"

section \<open>Example data\<close>

definition exRow :: RecordRow where
  "exRow =
     \<lparr>id = ''2024-03-01_k1'', date = ''2024-03-01'', kidId = ''k1'', kidName = ''Ada'',
      inTime = Some ''08:00'', outTime = Some ''12:00'',
      breakfast = Fin 1, amSnack = Fin 1, lunch = Fin 0, pmSnack = Fin 0,
      source = Some Auto, editedBy = Some ''u1'', editReason = Some ''Check-out button'',
      updatedAt = Some (Stored 7)\<rparr>"

text \<open>The same record with a check-in time outside the day.\<close>

definition lateRow :: RecordRow where
  "lateRow = exRow\<lparr>inTime := Some ''25:00''\<rparr>"

text \<open>The same record with a check-out time that is no clock string.\<close>

definition garbledOutRow :: RecordRow where
  "garbledOutRow = exRow\<lparr>outTime := Some ''ab:cd''\<rparr>"

text \<open>The same record still checked in: the check-out time is the empty string.\<close>

definition openRow :: RecordRow where
  "openRow = exRow\<lparr>outTime := Some []\<rparr>"

definition exKid :: Kid where
  "exKid = \<lparr>kid_id = ''k1'', kid_name = ''Ada'', active = True\<rparr>"

text \<open>A signed-in session on 2024-03-01 whose store holds the document of \<open>exRow\<close>.\<close>

definition exApp :: app where
  "exApp =
     \<lparr>user = Some ''u1'', curDate = ''2024-03-01'',
      docs = [(''u1'', ''2024-03-01_k1'') \<mapsto> stripUndefined (entries exRow)],
      editingKidId = Some ''k1'', editIn = ''08:30'', editOut = '' 16:00 '',
      editReasonText = ''late bus'', saveStatus = Idle\<rparr>"

text \<open>A patch with a field left unset.\<close>

definition sparsePatch :: obj where
  "sparsePatch = [(''outTime'', JStr ''12:30''), (''editedBy'', Undefined)]"

text \<open>The record persisted by the Clear operation on \<open>exApp\<close>.\<close>

definition clearedRow :: RecordRow where
  "clearedRow =
     \<lparr>id = ''2024-03-01_k1'', date = ''2024-03-01'', kidId = ''k1'', kidName = ''Ada'',
      inTime = Some [], outTime = Some [],
      breakfast = Fin 0, amSnack = Fin 0, lunch = Fin 0, pmSnack = Fin 0,
      source = Some Manual, editedBy = Some ''u1'', editReason = Some ''Cleared times'',
      updatedAt = Some ServerTimestamp\<rparr>"

definition clearedApp :: app where
  "clearedApp =
     exApp\<lparr>docs := (docs exApp)((''u1'', ''2024-03-01_k1'') \<mapsto>
                      stripUndefined (entries clearedRow)),
           saveStatus := ClearedOk\<rparr>"

text \<open>
  A patch that sets no meal flag and whose \<open>inTime\<close> property, if any, is the empty
  string or unset.
\<close>

definition leavesMealsAlone :: "obj \<Rightarrow> bool" where
  "leavesMealsAlone patch =
     list_all (\<lambda>kv. fst kv \<noteq> ''breakfast'' \<and> fst kv \<noteq> ''amSnack'' \<and> fst kv \<noteq> ''lunch''
                    \<and> fst kv \<noteq> ''pmSnack''
                    \<and> (if fst kv = ''inTime'' then snd kv = JStr [] \<or> snd kv = Undefined
                        else True)) patch"

definition mealsZero :: "RecordRow \<Rightarrow> bool" where
  "mealsZero r =
     (breakfast r = Fin 0 \<and> amSnack r = Fin 0 \<and> lunch r = Fin 0 \<and> pmSnack r = Fin 0)"

text \<open>A record at rest after a Clear: no meal flagged and no check-in time.\<close>

definition restsCleared :: "RecordRow \<Rightarrow> bool" where
  "restsCleared r = (mealsZero r \<and> (inTime r = Some [] \<or> inTime r = None))"

text \<open>
  The rejection conditions of the manual edit in the words of claim C6: the trimmed
  \<open>inTime\<close> is empty or not valid, or the trimmed \<open>outTime\<close> is non-empty and not
  valid, or it is non-empty and its minutes are strictly below those of \<open>inTime\<close>.
\<close>

definition manualEditRejected :: "app \<Rightarrow> bool" where
  "manualEditRejected s =
     ((trim (editIn s) = [] \<or> \<not> isValidHHMM (trim (editIn s)))
      \<or> (trim (editOut s) \<noteq> [] \<and> \<not> isValidHHMM (trim (editOut s)))
      \<or> (trim (editOut s) \<noteq> []
          \<and> nlt (nonNull (toMin (Some (trim (editOut s)))))
                 (nonNull (toMin (Some (trim (editIn s)))))))"

text \<open>The record a manual edit writes for user \<open>u\<close> over the record \<open>base\<close>.\<close>

definition manualRecord :: "RecordRow \<Rightarrow> string \<Rightarrow> app \<Rightarrow> RecordRow" where
  "manualRecord base u s =
     calcMeals
       (base\<lparr>inTime := Some (trim (editIn s)), outTime := Some (trim (editOut s)),
             source := Some Manual, editedBy := Some u,
             editReason := (if trim (editReasonText s) \<noteq> [] then Some (trim (editReasonText s))
                            else editReason base),
             updatedAt := Some ServerTimestamp\<rparr>)"

text \<open>Edit forms with a check-out before the check-in, and with minutes above 59.\<close>

definition backwardsApp :: app where
  "backwardsApp = exApp\<lparr>editIn := ''09:00'', editOut := ''08:00''\<rparr>"

definition looseApp :: app where
  "looseApp = exApp\<lparr>editIn := ''09:75'', editOut := []\<rparr>"

text \<open>The record the manual edit of \<open>exApp\<close> (08:30 to 16:00, reason given) writes.\<close>

definition savedRow :: RecordRow where
  "savedRow =
     \<lparr>id = ''2024-03-01_k1'', date = ''2024-03-01'', kidId = ''k1'', kidName = ''Ada'',
      inTime = Some ''08:30'', outTime = Some ''16:00'',
      breakfast = Fin 1, amSnack = Fin 1, lunch = Fin 1, pmSnack = Fin 1,
      source = Some Manual, editedBy = Some ''u1'', editReason = Some ''late bus'',
      updatedAt = Some ServerTimestamp\<rparr>"

text \<open>
  The four operations that call the reconciler, and the patch each hands to it; the
  manual edit hands over none when one of its guards rejects the form.
\<close>

datatype operation = CheckIn string | CheckOut string | Clear | ManualEdit

fun perform :: "operation \<Rightarrow> Kid \<Rightarrow> app \<Rightarrow> string option \<times> app" where
  "perform (CheckIn now) kid s = checkIn now kid s"
| "perform (CheckOut now) kid s = checkOut now kid s"
| "perform Clear kid s = clearTimes kid s"
| "perform ManualEdit kid s = saveManualTimes kid s"

fun patchOf :: "operation \<Rightarrow> app \<Rightarrow> obj option" where
  "patchOf (CheckIn now) s = Some (checkInPatch now s)"
| "patchOf (CheckOut now) s = Some (checkOutPatch now s)"
| "patchOf Clear s = Some (clearPatch s)"
| "patchOf ManualEdit s = (if manualEditRejected s then None else Some (manualPatch s))"

text \<open>A patch supplies a valid \<open>inTime\<close> when its \<open>inTime\<close> property is a valid HH:MM string.\<close>

definition suppliesValidInTime :: "obj \<Rightarrow> bool" where
  "suppliesValidInTime patch =
     (case map_of patch ''inTime'' of Some (JStr t) \<Rightarrow> isValidHHMM t | _ \<Rightarrow> False)"

text \<open>
  The check-in button takes its time from the wall clock,
  \<open>new Date().toTimeString().slice(0, 5)\<close>, which is a valid HH:MM string.
\<close>

fun clockCheckIn :: "operation \<Rightarrow> bool" where
  "clockCheckIn (CheckIn now) = isValidHHMM now"
| "clockCheckIn _ = True"

text \<open>
  An edit form that the manual edit rejects, opened while the status line still shows the
  last Clear.
\<close>

definition staleApp :: app where
  "staleApp = backwardsApp\<lparr>saveStatus := ClearedOk\<rparr>"

text \<open>Rate sets stored for exactly the years 2022 and 2024.\<close>

definition rates2022 :: ReimbursementRates where
  "rates2022 =
     \<lparr>rate_year = Fin 2022, rate_breakfast = Fin 2, rate_snack = Fin 1,
      rate_lunch = Fin (7 / 2), rate_updatedAt = Some (Stored 1)\<rparr>"

definition rates2024 :: ReimbursementRates where
  "rates2024 =
     \<lparr>rate_year = Fin 2024, rate_breakfast = Fin (9 / 4), rate_snack = Fin (5 / 4),
      rate_lunch = Fin 4, rate_updatedAt = Some (Stored 2)\<rparr>"

definition exRates :: rates_map where
  "exRates = [(Fin 2024, rates2024), (Fin 2022, rates2022)]"

section \<open>Properties of the time utilities and of meal eligibility\<close>

lemma digit_not_white: "isDigit c \<Longrightarrow> \<not> isWhite c"
  by (auto simp: isDigit_def isWhite_def)

lemma digit_no_sign: "isDigit c \<Longrightarrow> c \<noteq> CHR ''-'' \<and> c \<noteq> CHR ''+'' \<and> c \<noteq> CHR ''.''"
  by (auto simp: isDigit_def code_def)

lemma Number_two_digits:
  assumes "isDigit a" "isDigit b"
  shows "Number [a, b] = Fin (of_nat (10 * digitVal a + digitVal b))"
proof -
  have t: "trim [a, b] = [a, b]"
    using assms by (simp add: trim_def digit_not_white)
  have u: "unsignedDecimal [a, b] = Some (of_nat (10 * digitVal a + digitVal b))"
    using assms by (simp add: unsignedDecimal_def exponentPart_def scale10_def digitsVal_def)
  show ?thesis
    using assms digit_no_sign[of a] by (simp add: Number_def t u)
qed

lemma toMin_HHMM:
  assumes "isDigit a" "isDigit b" "isDigit d" "isDigit e"
  shows "toMin (Some [a, b, c, d, e])
         = Some (Fin (of_nat ((10 * digitVal a + digitVal b) * 60 + (10 * digitVal d + digitVal e))))"
  using assms by (simp add: slice_def Number_two_digits)

lemma matchesHHMM_cases:
  assumes "matchesHHMM t"
  obtains a b d e where "t = [a, b, CHR '':'', d, e]" "isDigit a" "isDigit b" "isDigit d" "isDigit e"
proof -
  from assms obtain a b c d e where t: "t = [a, b, c, d, e]"
    by (cases t rule: matchesHHMM.cases) auto
  with assms that show thesis by simp
qed

lemma isValidHHMM_minutes:
  assumes "isValidHHMM t"
  shows "\<exists>n < 1440. toMin (Some t) = Some (Fin (of_nat n))"
proof -
  from assms have m: "matchesHHMM t"
    by (simp add: isValidHHMM_def split: if_splits)
  then obtain a b d e where t: "t = [a, b, CHR '':'', d, e]"
    and dg: "isDigit a" "isDigit b" "isDigit d" "isDigit e"
    by (rule matchesHHMM_cases)
  define n where "n = (10 * digitVal a + digitVal b) * 60 + (10 * digitVal d + digitVal e)"
  have tm: "toMin (Some t) = Some (Fin (of_nat n))"
    unfolding t n_def using dg by (rule toMin_HHMM)
  from assms m have "(of_nat n :: rat) < of_nat 1440"
    by (simp add: isValidHHMM_def tm del: toMin.simps)
  then have "n < 1440"
    by (simp only: of_nat_less_iff)
  with tm show ?thesis by blast
qed

lemma toMin_meals:
  "toMin (Some MEALS_breakfast_start) = Some (Fin 540)"
  "toMin (Some MEALS_breakfast_end) = Some (Fin 570)"
  "toMin (Some MEALS_amSnack) = Some (Fin 660)"
  "toMin (Some MEALS_lunch) = Some (Fin 780)"
  "toMin (Some MEALS_pmSnack) = Some (Fin 900)"
  by code_simp+

lemma toMin_empty: "t = None \<or> t = Some [] \<Longrightarrow> toMin t = None"
  by auto

lemma calcMeals_null: "toMin (inTime r) = None \<Longrightarrow> calcMeals r = r"
  by (simp add: calcMeals_def)

lemma calcMeals_some:
  "toMin (inTime r) = Some i \<Longrightarrow>
   calcMeals r =
     r\<lparr>breakfast := flag (nle i (Fin 570)
            \<and> nge (case toMin (outTime r) of None \<Rightarrow> Fin 1440 | Some v \<Rightarrow> v) (Fin 540)),
       amSnack := flag (nle i (Fin 660)
            \<and> nge (case toMin (outTime r) of None \<Rightarrow> Fin 1440 | Some v \<Rightarrow> v) (Fin 660)),
       lunch := flag (nle i (Fin 780)
            \<and> nge (case toMin (outTime r) of None \<Rightarrow> Fin 1440 | Some v \<Rightarrow> v) (Fin 780)),
       pmSnack := flag (nle i (Fin 900)
            \<and> nge (case toMin (outTime r) of None \<Rightarrow> Fin 1440 | Some v \<Rightarrow> v) (Fin 900))\<rparr>"
  by (simp add: calcMeals_def at_instant_def toMin_meals Let_def del: toMin.simps
      cong: option.case_cong)

lemma calcMeals_times: "inTime (calcMeals r) = inTime r \<and> outTime (calcMeals r) = outTime r"
  by (cases "toMin (inTime r)") (simp_all add: calcMeals_null calcMeals_some)

lemma calcMeals_idem: "calcMeals (calcMeals r) = calcMeals r"
proof (cases "toMin (inTime r)")
  case None
  then show ?thesis by (simp add: calcMeals_null)
next
  case (Some i)
  have "toMin (inTime (calcMeals r)) = Some i"
    using Some by (simp add: calcMeals_times)
  from calcMeals_some[OF this] show ?thesis
    by (simp add: calcMeals_times) (simp add: calcMeals_some[OF Some])
qed

text \<open>
  C9. \<open>calcMeals\<close> is idempotent on every record: applied to its own output it returns
  that output, the four meal flags and every other field included.
\<close>

theorem calcMeals_idempotent: "calcMeals (calcMeals r) = calcMeals r"
  by (rule calcMeals_idem)

text \<open>
  C1. For a record with a valid \<open>inTime\<close> of \<open>i\<close> minutes and the effective check-out
  \<open>out\<close> (the minutes of \<open>outTime\<close>, or 1440 when it is absent or empty), \<open>calcMeals\<close>
  returns the record with \<open>breakfast\<close> set to 1 iff \<open>i \<le> 570\<close> and \<open>out \<ge> 540\<close>, and
  \<open>amSnack\<close>, \<open>lunch\<close>, \<open>pmSnack\<close> set to 1 iff \<open>i \<le> m\<close> and \<open>out \<ge> m\<close> for
  \<open>m\<close> = 660, 780, 900, to 0 otherwise; no other field changes. Here \<open>i\<close> is a whole
  number of minutes below 1440.
\<close>

theorem calcMeals_flags:
  assumes "inTime r = Some t" and "isValidHHMM t"
    and "toMin (Some t) = Some i"
    and "out = (case toMin (outTime r) of None \<Rightarrow> Fin 1440 | Some v \<Rightarrow> v)"
  shows "calcMeals r =
           r\<lparr>breakfast := (if nle i (Fin 570) \<and> nge out (Fin 540) then Fin 1 else Fin 0),
             amSnack := (if nle i (Fin 660) \<and> nge out (Fin 660) then Fin 1 else Fin 0),
             lunch := (if nle i (Fin 780) \<and> nge out (Fin 780) then Fin 1 else Fin 0),
             pmSnack := (if nle i (Fin 900) \<and> nge out (Fin 900) then Fin 1 else Fin 0)\<rparr>
         \<and> (\<exists>n < 1440. i = Fin (of_nat n))
         \<and> (outTime r = None \<or> outTime r = Some [] \<longrightarrow> out = Fin 1440)"
proof -
  have i: "toMin (inTime r) = Some i"
    using assms(1,3) by simp
  have "\<exists>n < 1440. i = Fin (of_nat n)"
    using isValidHHMM_minutes[OF assms(2)] assms(3) by auto
  moreover have "outTime r = None \<or> outTime r = Some [] \<longrightarrow> out = Fin 1440"
    using assms(4) by auto
  ultimately show ?thesis
    using calcMeals_some[OF i] assms(4) by (simp add: flag_def del: toMin.simps)
qed

theorem calcMeals_flags_witness:
  "inTime exRow = Some ''08:00'' \<and> isValidHHMM ''08:00''
   \<and> toMin (Some ''08:00'') = Some (Fin 480)
   \<and> Fin 720 = (case toMin (outTime exRow) of None \<Rightarrow> Fin 1440 | Some v \<Rightarrow> v)
   \<and> calcMeals exRow
       = exRow\<lparr>breakfast := Fin 1, amSnack := Fin 1, lunch := Fin 0, pmSnack := Fin 0\<rparr>"
proof -
  have h1: "inTime exRow = Some ''08:00''" by code_simp
  have h2: "isValidHHMM ''08:00''" by code_simp
  have h3: "toMin (Some ''08:00'') = Some (Fin 480)" by code_simp
  have h4: "Fin 720 = (case toMin (outTime exRow) of None \<Rightarrow> Fin 1440 | Some v \<Rightarrow> v)"
    by code_simp
  from calcMeals_flags[OF h1 h2 h3 h4]
  have "calcMeals exRow
       = exRow\<lparr>breakfast := Fin 1, amSnack := Fin 1, lunch := Fin 0, pmSnack := Fin 0\<rparr>"
    by (simp add: nge_def)
  with h1 h2 h3 h4 show ?thesis by blast
qed

lemma calcMeals_no_inTime: "inTime r = None \<or> inTime r = Some [] \<Longrightarrow> calcMeals r = r"
  by (intro calcMeals_null toMin_empty)

text \<open>
  C4. The claim: a record whose \<open>inTime\<close> is empty or invalid comes back from
  \<open>calcMeals\<close> unchanged, as the source's comment at the guard also says ("If no valid
  inTime, do NOT auto-calc (return as-is)"). The guard tests only for \<open>null\<close>, which
  \<open>toMin\<close> returns for the absent and the empty string alone. At the record
  \<open>lateRow\<close>, whose \<open>inTime\<close> is the invalid \<open>25:00\<close>, \<open>toMin\<close> gives 1500 and
  the flags are recalculated: \<open>breakfast\<close> and \<open>amSnack\<close> drop from 1 to 0.
\<close>

theorem calcMeals_late_inTime_recalculated:
  "\<not> isValidHHMM ''25:00'' \<and> inTime lateRow = Some ''25:00''
   \<and> toMin (inTime lateRow) = Some (Fin 1500)
   \<and> breakfast lateRow = Fin 1 \<and> amSnack lateRow = Fin 1
   \<and> calcMeals lateRow = lateRow\<lparr>breakfast := Fin 0, amSnack := Fin 0\<rparr>
   \<and> calcMeals lateRow \<noteq> lateRow"
  by code_simp

text \<open>
  C5, as stated, fails for an invalid \<open>outTime\<close>: with check-in at 08:00 and the
  check-out string \<open>ab:cd\<close> the check-out minutes are \<open>NaN\<close>, every comparison
  is false and \<open>breakfast\<close> is 0, whereas a check-out at 1440 minutes gives 1.
\<close>

theorem calcMeals_garbled_out_counterexample:
  "isValidHHMM ''08:00'' \<and> inTime garbledOutRow = Some ''08:00''
   \<and> outTime garbledOutRow = Some ''ab:cd'' \<and> \<not> isValidHHMM ''ab:cd''
   \<and> toMin (Some ''ab:cd'') = Some NaN \<and> toMin (Some ''24:00'') = Some (Fin 1440)
   \<and> breakfast (calcMeals garbledOutRow) = Fin 0
   \<and> breakfast (calcMeals (garbledOutRow\<lparr>outTime := Some ''24:00''\<rparr>)) = Fin 1"
  by code_simp

text \<open>
  C5, amended. For a record with a valid \<open>inTime\<close> of \<open>i\<close> minutes and an
  \<open>outTime\<close> that is absent or the empty string, \<open>calcMeals\<close> computes the four
  flags as for a check-out at 1440 minutes: each meal is flagged iff the check-in is at or
  before its instant (for breakfast, the end of its window), and the flags equal those of
  the same record with \<open>outTime\<close> \<open>24:00\<close>.
\<close>

theorem calcMeals_open_checkin:
  assumes "inTime r = Some t" and "isValidHHMM t"
    and "toMin (Some t) = Some i"
    and "outTime r = None \<or> outTime r = Some []"
  shows "calcMeals r =
           r\<lparr>breakfast := (if nle i (Fin 570) then Fin 1 else Fin 0),
             amSnack := (if nle i (Fin 660) then Fin 1 else Fin 0),
             lunch := (if nle i (Fin 780) then Fin 1 else Fin 0),
             pmSnack := (if nle i (Fin 900) then Fin 1 else Fin 0)\<rparr>
         \<and> breakfast (calcMeals r) = breakfast (calcMeals (r\<lparr>outTime := Some ''24:00''\<rparr>))
         \<and> amSnack (calcMeals r) = amSnack (calcMeals (r\<lparr>outTime := Some ''24:00''\<rparr>))
         \<and> lunch (calcMeals r) = lunch (calcMeals (r\<lparr>outTime := Some ''24:00''\<rparr>))
         \<and> pmSnack (calcMeals r) = pmSnack (calcMeals (r\<lparr>outTime := Some ''24:00''\<rparr>))"
proof -
  have i: "toMin (inTime r) = Some i"
    using assms(1,3) by simp
  have o: "toMin (outTime r) = None"
    using assms(4) by (rule toMin_empty)
  have e: "toMin (Some ''24:00'') = Some (Fin 1440)"
    by code_simp
  have i': "toMin (inTime (r\<lparr>outTime := Some ''24:00''\<rparr>)) = Some i"
    using i by simp
  obtain n where n: "i = Fin (of_nat n)"
    using isValidHHMM_minutes[OF assms(2)] assms(3) by auto
  show ?thesis
    unfolding calcMeals_some[OF i] calcMeals_some[OF i'] o
    by (simp add: e flag_def nge_def n del: toMin.simps)
qed

theorem calcMeals_open_checkin_witness:
  "inTime openRow = Some ''08:00'' \<and> isValidHHMM ''08:00''
   \<and> toMin (Some ''08:00'') = Some (Fin 480) \<and> outTime openRow = Some []
   \<and> calcMeals openRow
       = openRow\<lparr>breakfast := Fin 1, amSnack := Fin 1, lunch := Fin 1, pmSnack := Fin 1\<rparr>"
proof -
  have h1: "inTime openRow = Some ''08:00''" by code_simp
  have h2: "isValidHHMM ''08:00''" by code_simp
  have h3: "toMin (Some ''08:00'') = Some (Fin 480)" by code_simp
  have h4: "outTime openRow = Some []" by code_simp
  have h4': "outTime openRow = None \<or> outTime openRow = Some []" using h4 by simp
  from calcMeals_open_checkin[OF h1 h2 h3 h4']
  have "calcMeals openRow
       = openRow\<lparr>breakfast := Fin 1, amSnack := Fin 1, lunch := Fin 1, pmSnack := Fin 1\<rparr>"
    by simp
  with h1 h2 h3 h4 show ?thesis by blast
qed

section \<open>Properties of documents and of the reconciler\<close>

lemma set_update_subset: "set (AList.update k v al) \<subseteq> insert (k, v) (set al)"
  by (induction al) auto

lemma update_fresh: "k \<notin> fst ` set al \<Longrightarrow> AList.update k v al = al @ [(k, v)]"
  by (induction al) auto

lemma fold_stripStep_set:
  "set (fold stripStep ob acc) \<subseteq> set acc \<union> {kv \<in> set ob. snd kv \<noteq> Undefined}"
proof (induction ob arbitrary: acc)
  case Nil
  then show ?case by simp
next
  case (Cons x ob)
  obtain k v where x: "x = (k, v)" by (cases x)
  show ?case
    using Cons.IH[of "stripStep x acc"] set_update_subset[of k v acc]
    by (auto simp: x stripStep_def split: if_splits)
qed

lemma stripUndefined_subset:
  "set (stripUndefined ob) \<subseteq> {kv \<in> set ob. snd kv \<noteq> Undefined}"
  using fold_stripStep_set[of ob "[]"] by (simp add: stripUndefined_def)

lemma stripUndefined_clean: "\<not> list_ex (\<lambda>kv. snd kv = Undefined) (stripUndefined ob)"
  using stripUndefined_subset[of ob] by (auto simp: list_ex_iff)

lemma fold_stripStep_distinct:
  "distinct (map fst ob) \<Longrightarrow> fst ` set acc \<inter> fst ` set ob = {} \<Longrightarrow>
   fold stripStep ob acc = acc @ filter (\<lambda>kv. snd kv \<noteq> Undefined) ob"
proof (induction ob arbitrary: acc)
  case Nil
  then show ?case by simp
next
  case (Cons x ob)
  obtain k v where x: "x = (k, v)" by (cases x)
  have fresh: "k \<notin> fst ` set acc"
    using Cons.prems(2) by (auto simp: x)
  have step: "stripStep x acc = (if v \<noteq> Undefined then acc @ [(k, v)] else acc)"
    by (simp add: x stripStep_def update_fresh[OF fresh])
  have d: "distinct (map fst ob)"
    using Cons.prems(1) by simp
  have "fst ` set (stripStep x acc) \<subseteq> insert k (fst ` set acc)"
    unfolding step by auto
  moreover have "k \<notin> fst ` set ob"
    using Cons.prems(1) by (simp add: x)
  moreover have "fst ` set acc \<inter> fst ` set ob = {}"
    using Cons.prems(2) by auto
  ultimately have disj: "fst ` set (stripStep x acc) \<inter> fst ` set ob = {}"
    by blast
  have "fold stripStep (x # ob) acc = fold stripStep ob (stripStep x acc)"
    by simp
  also have "\<dots> = stripStep x acc @ filter (\<lambda>kv. snd kv \<noteq> Undefined) ob"
    by (rule Cons.IH[OF d disj])
  also have "\<dots> = acc @ filter (\<lambda>kv. snd kv \<noteq> Undefined) (x # ob)"
    unfolding step by (simp add: x)
  finally show ?case .
qed

lemma stripUndefined_distinct:
  "distinct (map fst ob) \<Longrightarrow> stripUndefined ob = filter (\<lambda>kv. snd kv \<noteq> Undefined) ob"
  using fold_stripStep_distinct[of ob "[]"] by (simp add: stripUndefined_def)

lemma setDoc_stripped:
  "setDoc ref (stripUndefined ob) st = Inr (st(ref \<mapsto> stripUndefined ob))"
  by (simp add: setDoc_def stripUndefined_clean)

lemma upsertRecord_signed_in:
  "user s = Some u \<Longrightarrow>
   upsertRecord kid patch s =
     Inr (s\<lparr>docs := (docs s)((u, recordId (curDate s) kid) \<mapsto>
                 stripUndefined (entries (mergedRecord (baseRecord kid u s) patch)))\<rparr>)"
  by (simp add: upsertRecord_def Let_def setDoc_stripped)

lemma upsertRecord_signed_out: "user s = None \<Longrightarrow> upsertRecord kid patch s = Inr s"
  by (simp add: upsertRecord_def)

lemma entries_distinct: "distinct (map fst (entries r))"
  by (simp add: entries_def)

lemma fold_filter: "fold f (filter P xs) s = fold (\<lambda>x s. if P x then f x s else s) xs s"
  by (induction xs arbitrary: s) auto

lemma assign_str:
  "assign (''id'', JStr x) r = r\<lparr>id := x\<rparr>"
  "assign (''date'', JStr x) r = r\<lparr>date := x\<rparr>"
  "assign (''kidId'', JStr x) r = r\<lparr>kidId := x\<rparr>"
  "assign (''kidName'', JStr x) r = r\<lparr>kidName := x\<rparr>"
  "assign (''inTime'', JStr x) r = r\<lparr>inTime := Some x\<rparr>"
  "assign (''outTime'', JStr x) r = r\<lparr>outTime := Some x\<rparr>"
  "assign (''editedBy'', JStr x) r = r\<lparr>editedBy := Some x\<rparr>"
  "assign (''editReason'', JStr x) r = r\<lparr>editReason := Some x\<rparr>"
  "assign (''source'', JStr ''auto'') r = r\<lparr>source := Some Auto\<rparr>"
  "assign (''source'', JStr ''manual'') r = r\<lparr>source := Some Manual\<rparr>"
  by (simp_all add: assign_def)

lemma assign_num:
  "assign (''breakfast'', JNum n) r = r\<lparr>breakfast := n\<rparr>"
  "assign (''amSnack'', JNum n) r = r\<lparr>amSnack := n\<rparr>"
  "assign (''lunch'', JNum n) r = r\<lparr>lunch := n\<rparr>"
  "assign (''pmSnack'', JNum n) r = r\<lparr>pmSnack := n\<rparr>"
  "assign (''updatedAt'', JStamp t) r = r\<lparr>updatedAt := Some t\<rparr>"
  by (simp_all add: assign_def)

lemma assign_opt:
  "(if optStr a \<noteq> Undefined then assign (''inTime'', optStr a) r else r)
     = r\<lparr>inTime := (case a of None \<Rightarrow> inTime r | Some x \<Rightarrow> Some x)\<rparr>"
  "(if optStr a \<noteq> Undefined then assign (''outTime'', optStr a) r else r)
     = r\<lparr>outTime := (case a of None \<Rightarrow> outTime r | Some x \<Rightarrow> Some x)\<rparr>"
  "(if optStr a \<noteq> Undefined then assign (''editedBy'', optStr a) r else r)
     = r\<lparr>editedBy := (case a of None \<Rightarrow> editedBy r | Some x \<Rightarrow> Some x)\<rparr>"
  "(if optStr a \<noteq> Undefined then assign (''editReason'', optStr a) r else r)
     = r\<lparr>editReason := (case a of None \<Rightarrow> editReason r | Some x \<Rightarrow> Some x)\<rparr>"
  "(if optSource b \<noteq> Undefined then assign (''source'', optSource b) r else r)
     = r\<lparr>source := (case b of None \<Rightarrow> source r | Some x \<Rightarrow> Some x)\<rparr>"
  "(if optStamp c \<noteq> Undefined then assign (''updatedAt'', optStamp c) r else r)
     = r\<lparr>updatedAt := (case c of None \<Rightarrow> updatedAt r | Some x \<Rightarrow> Some x)\<rparr>"
  subgoal by (cases a) (simp_all add: assign_str)
  subgoal by (cases a) (simp_all add: assign_str)
  subgoal by (cases a) (simp_all add: assign_str)
  subgoal by (cases a) (simp_all add: assign_str)
  subgoal by (cases b rule: optSource.cases) (simp_all add: assign_str)
  subgoal by (cases c) (simp_all add: assign_num)
  done

lemma case_option_id: "(case a of None \<Rightarrow> None | Some x \<Rightarrow> Some x) = a"
  by (cases a) simp_all

lemma asRecordRow_roundtrip: "asRecordRow (stripUndefined (entries r)) = r"
proof -
  have "asRecordRow (stripUndefined (entries r))
        = fold (\<lambda>x s. if snd x \<noteq> Undefined then assign x s else s) (entries r) blankRow"
    by (simp only: asRecordRow_def spread_def stripUndefined_distinct[OF entries_distinct]
        fold_filter)
  also have "\<dots> = r"
    by (simp add: entries_def assign_str assign_num assign_opt blankRow_def case_option_id
        cong: option.case_cong)
  finally show ?thesis .
qed

lemma stripUndefined_Undefined_head:
  "stripUndefined ((k, Undefined) # patch) = stripUndefined patch"
  by (simp add: stripUndefined_def stripStep_def)

text \<open>
  C8. Whatever the base record and the patch, the document \<open>upsertRecord\<close> hands to the
  store holds no property bound to \<open>undefined\<close>: the store's rejection of such a
  document is never reached, the write goes through for a signed-in user, and neither the
  written document nor the cleaned patch has an \<open>undefined\<close> value. An
  \<open>undefined\<close>-valued property of the patch is left out of the merge altogether.
\<close>

theorem upsertRecord_writes_no_undefined:
  "upsertRecord kid patch s \<noteq> Inl StoreRejectedUndefined
   \<and> (user s = Some u \<longrightarrow>
        (\<exists>d. upsertRecord kid patch s
                = Inr (s\<lparr>docs := (docs s)((u, recordId (curDate s) kid) \<mapsto> d)\<rparr>)
             \<and> d = stripUndefined (entries (mergedRecord (baseRecord kid u s) patch))
             \<and> (\<forall>kv \<in> set d. snd kv \<noteq> Undefined)
             \<and> (\<forall>k. map_of d k \<noteq> Some Undefined)))
   \<and> (user s = None \<longrightarrow> upsertRecord kid patch s = Inr s)
   \<and> (\<forall>kv \<in> set (stripUndefined patch). snd kv \<noteq> Undefined)
   \<and> mergedRecord base ((k, Undefined) # patch) = mergedRecord base patch"
proof -
  have clean: "\<forall>kv \<in> set (stripUndefined ob). snd kv \<noteq> Undefined" for ob
    using stripUndefined_subset[of ob] by auto
  have look: "map_of (stripUndefined ob) k' \<noteq> Some Undefined" for ob k'
    using clean[of ob] by (fastforce dest: map_of_SomeD)
  have a: "upsertRecord kid patch s \<noteq> Inl StoreRejectedUndefined"
    by (cases "user s") (simp_all add: upsertRecord_signed_in upsertRecord_signed_out)
  have b: "user s = Some u \<longrightarrow>
        (\<exists>d. upsertRecord kid patch s
                = Inr (s\<lparr>docs := (docs s)((u, recordId (curDate s) kid) \<mapsto> d)\<rparr>)
             \<and> d = stripUndefined (entries (mergedRecord (baseRecord kid u s) patch))
             \<and> (\<forall>kv \<in> set d. snd kv \<noteq> Undefined)
             \<and> (\<forall>k. map_of d k \<noteq> Some Undefined))"
    using clean look by (simp add: upsertRecord_signed_in)
  have c: "user s = None \<longrightarrow> upsertRecord kid patch s = Inr s"
    by (simp add: upsertRecord_signed_out)
  have d: "mergedRecord base ((k, Undefined) # patch) = mergedRecord base patch"
    by (simp only: mergedRecord_def stripUndefined_Undefined_head)
  from a b c clean[of patch] d show ?thesis by blast
qed

lemma exApp_fields:
  "user exApp = Some ''u1''" "curDate exApp = ''2024-03-01''"
  "recordId ''2024-03-01'' exKid = ''2024-03-01_k1''"
  "baseRecord exKid ''u1'' exApp = exRow"
  by (simp_all add: exApp_def exKid_def recordId_def baseRecord_def asRecordRow_roundtrip)

theorem upsertRecord_writes_no_undefined_witness:
  "user exApp = Some ''u1''
   \<and> map_of sparsePatch ''editedBy'' = Some Undefined
   \<and> upsertRecord exKid sparsePatch exApp
       = Inr (exApp\<lparr>docs := (docs exApp)((''u1'', ''2024-03-01_k1'') \<mapsto>
                 stripUndefined (entries (mergedRecord exRow sparsePatch)))\<rparr>)
   \<and> map_of (stripUndefined (entries (mergedRecord exRow sparsePatch))) ''editedBy''
       = Some (JStr ''u1'')
   \<and> map_of (stripUndefined (entries (mergedRecord exRow sparsePatch))) ''outTime''
       = Some (JStr ''12:30'')"
proof -
  have h: "user exApp = Some ''u1''" by (rule exApp_fields)
  have p: "map_of sparsePatch ''editedBy'' = Some Undefined"
    by (simp add: sparsePatch_def)
  from upsertRecord_writes_no_undefined[of exKid sparsePatch exApp "''u1''"] h
  have "upsertRecord exKid sparsePatch exApp
       = Inr (exApp\<lparr>docs := (docs exApp)((''u1'', ''2024-03-01_k1'') \<mapsto>
                 stripUndefined (entries (mergedRecord exRow sparsePatch)))\<rparr>)"
    by (simp add: exApp_fields)
  moreover have "map_of (stripUndefined (entries (mergedRecord exRow sparsePatch))) ''editedBy''
       = Some (JStr ''u1'')"
    by code_simp
  moreover have "map_of (stripUndefined (entries (mergedRecord exRow sparsePatch))) ''outTime''
       = Some (JStr ''12:30'')"
    by code_simp
  ultimately show ?thesis using h p by blast
qed

lemma uidOf_signed_in: "user s = Some u \<Longrightarrow> uidOf s = JStr u"
  by (simp add: uidOf_def)

lemma stripUndefined_clearPatch: "user s = Some u \<Longrightarrow> stripUndefined (clearPatch s) = clearPatch s"
  by (subst stripUndefined_distinct) (simp_all add: clearPatch_def uidOf_signed_in)

lemma merged_clearPatch:
  assumes "user s = Some u"
  shows "mergedRecord base (clearPatch s) =
           base\<lparr>inTime := Some [], outTime := Some [],
                breakfast := Fin 0, amSnack := Fin 0, lunch := Fin 0, pmSnack := Fin 0,
                source := Some Manual, editedBy := Some u,
                editReason := Some ''Cleared times'', updatedAt := Some ServerTimestamp\<rparr>"
proof -
  have "spread base (clearPatch s @ [(''updatedAt'', JStamp ServerTimestamp)]) =
           base\<lparr>inTime := Some [], outTime := Some [],
                breakfast := Fin 0, amSnack := Fin 0, lunch := Fin 0, pmSnack := Fin 0,
                source := Some Manual, editedBy := Some u,
                editReason := Some ''Cleared times'', updatedAt := Some ServerTimestamp\<rparr>"
    by (simp add: spread_def clearPatch_def uidOf_signed_in[OF assms] assign_str assign_num)
  then show ?thesis
    by (simp add: mergedRecord_def stripUndefined_clearPatch[OF assms] calcMeals_null)
qed

lemma assign_keeps_cleared:
  assumes "restsCleared r"
    and "fst kv \<noteq> ''breakfast''" "fst kv \<noteq> ''amSnack''" "fst kv \<noteq> ''lunch''" "fst kv \<noteq> ''pmSnack''"
    and "fst kv = ''inTime'' \<longrightarrow> snd kv = JStr [] \<or> snd kv = Undefined"
  shows "restsCleared (assign kv r)"
  using assms
  by (cases "snd kv") (auto simp: assign_def Let_def restsCleared_def mealsZero_def)

lemma fold_assign_keeps_cleared:
  "leavesMealsAlone ob \<Longrightarrow> restsCleared r \<Longrightarrow> restsCleared (fold assign ob r)"
proof (induction ob arbitrary: r)
  case Nil
  then show ?case by simp
next
  case (Cons kv ob)
  from Cons.prems(1) have hd: "fst kv \<noteq> ''breakfast''" "fst kv \<noteq> ''amSnack''"
      "fst kv \<noteq> ''lunch''" "fst kv \<noteq> ''pmSnack''"
      "fst kv = ''inTime'' \<longrightarrow> snd kv = JStr [] \<or> snd kv = Undefined"
    and tl: "leavesMealsAlone ob"
    by (auto simp: leavesMealsAlone_def split: if_splits)
  have "restsCleared (assign kv r)"
    using Cons.prems(2) hd by (rule assign_keeps_cleared)
  from Cons.IH[OF tl this] show ?case by simp
qed

lemma list_all_subset: "list_all P xs \<Longrightarrow> set ys \<subseteq> set xs \<Longrightarrow> list_all P ys"
  by (auto simp: list_all_iff)

lemma leavesMealsAlone_strip:
  assumes "leavesMealsAlone patch"
  shows "leavesMealsAlone (stripUndefined patch @ [(''updatedAt'', JStamp ServerTimestamp)])"
proof -
  have sub: "set (stripUndefined patch) \<subseteq> set patch"
    using stripUndefined_subset[of patch] by auto
  have "leavesMealsAlone (stripUndefined patch)"
    using assms sub unfolding leavesMealsAlone_def by (rule list_all_subset)
  moreover have "leavesMealsAlone [(''updatedAt'', JStamp ServerTimestamp)]"
    by (simp add: leavesMealsAlone_def)
  ultimately show ?thesis
    by (simp add: leavesMealsAlone_def)
qed

lemma merged_keeps_cleared:
  assumes "leavesMealsAlone patch" "restsCleared base"
  shows "restsCleared (mergedRecord base patch)"
proof -
  let ?m = "spread base (stripUndefined patch @ [(''updatedAt'', JStamp ServerTimestamp)])"
  have c: "restsCleared ?m"
    unfolding spread_def
    using leavesMealsAlone_strip[OF assms(1)] assms(2) by (rule fold_assign_keeps_cleared)
  then have "toMin (inTime ?m) = None"
    by (auto simp: restsCleared_def)
  then have "calcMeals ?m = ?m"
    by (rule calcMeals_null)
  with c show ?thesis
    by (simp add: mergedRecord_def)
qed

lemma baseRecord_status [simp]: "baseRecord kid u (s\<lparr>saveStatus := x\<rparr>) = baseRecord kid u s"
  by (simp add: baseRecord_def cong: option.case_cong)

lemma clearTimes_signed_in:
  assumes "user s = Some u"
  shows "clearTimes kid s =
           (None, s\<lparr>docs := (docs s)((u, recordId (curDate s) kid) \<mapsto>
                        stripUndefined (entries (mergedRecord (baseRecord kid u s) (clearPatch s)))),
                    saveStatus := ClearedOk\<rparr>)"
proof -
  have "user (s\<lparr>saveStatus := Clearing\<rparr>) = Some u"
    using assms by simp
  from upsertRecord_signed_in[OF this, of kid "clearPatch s"] show ?thesis
    by (simp add: clearTimes_def)
qed

lemma stripUndefined_manualPatch:
  "user s = Some u \<Longrightarrow> stripUndefined (manualPatch s) = manualPatch s"
  by (subst stripUndefined_distinct) (simp_all add: manualPatch_def uidOf_signed_in Let_def)

lemma merged_manualPatch:
  assumes "user s = Some u"
  shows "mergedRecord base (manualPatch s) = manualRecord base u s"
proof -
  have "spread base (manualPatch s @ [(''updatedAt'', JStamp ServerTimestamp)])
        = base\<lparr>inTime := Some (trim (editIn s)), outTime := Some (trim (editOut s)),
             source := Some Manual, editedBy := Some u,
             editReason := (if trim (editReasonText s) \<noteq> [] then Some (trim (editReasonText s))
                            else editReason base),
             updatedAt := Some ServerTimestamp\<rparr>"
    by (simp add: spread_def manualPatch_def uidOf_signed_in[OF assms] assign_str assign_num
        Let_def)
  then show ?thesis
    by (simp add: mergedRecord_def manualRecord_def stripUndefined_manualPatch[OF assms])
qed

lemma saveManualTimes_rejected:
  assumes "manualEditRejected s"
  shows "fst (saveManualTimes kid s) \<noteq> None"
    and "snd (saveManualTimes kid s) = s\<lparr>saveStatus := Idle\<rparr>"
  using assms by (auto simp: saveManualTimes_def manualEditRejected_def Let_def)

lemma saveManualTimes_accepted:
  assumes "\<not> manualEditRejected s" and "user s = Some u"
  shows "saveManualTimes kid s =
           (None, s\<lparr>docs := (docs s)((u, recordId (curDate s) kid) \<mapsto>
                        stripUndefined (entries (manualRecord (baseRecord kid u s) u s))),
                    saveStatus := SavedOk, editingKidId := None\<rparr>)"
proof -
  have "user (s\<lparr>saveStatus := Saving\<rparr>) = Some u"
    using assms(2) by simp
  from upsertRecord_signed_in[OF this, of kid "manualPatch s"] assms(1) show ?thesis
    by (auto simp: saveManualTimes_def manualEditRejected_def Let_def
        merged_manualPatch[OF assms(2)])
qed

lemma saveManualTimes_no_alert:
  assumes "\<not> manualEditRejected s"
  shows "fst (saveManualTimes kid s) = None"
proof (cases "user s")
  case None
  then have "user (s\<lparr>saveStatus := Saving\<rparr>) = None" by simp
  from upsertRecord_signed_out[OF this, of kid "manualPatch s"] assms show ?thesis
    by (auto simp: saveManualTimes_def manualEditRejected_def Let_def)
next
  case (Some u)
  from saveManualTimes_accepted[OF assms Some] show ?thesis by simp
qed

lemma calcMeals_others:
  "id (calcMeals r) = id r" "date (calcMeals r) = date r" "kidId (calcMeals r) = kidId r"
  "kidName (calcMeals r) = kidName r" "source (calcMeals r) = source r"
  "editedBy (calcMeals r) = editedBy r" "editReason (calcMeals r) = editReason r"
  "updatedAt (calcMeals r) = updatedAt r"
  by (cases "toMin (inTime r)"; simp add: calcMeals_null calcMeals_some)+

lemma manualRecord_times:
  "inTime (manualRecord base u s) = Some (trim (editIn s))"
  "outTime (manualRecord base u s) = Some (trim (editOut s))"
  "source (manualRecord base u s) = Some Manual"
  "editedBy (manualRecord base u s) = Some u"
  by (simp_all add: manualRecord_def calcMeals_times calcMeals_others)

text \<open>
  C6, as stated, fails where it says that a rejection changes no state: each guard empties
  the status line before it returns. In \<open>staleApp\<close> the form is rejected (check-out 08:00
  before check-in 09:00) while the status line shows the last Clear; afterwards the status
  line is empty. Nothing is written.
\<close>

theorem saveManualTimes_status_counterexample:
  "manualEditRejected staleApp \<and> saveStatus staleApp = ClearedOk
   \<and> fst (saveManualTimes exKid staleApp) \<noteq> None
   \<and> saveStatus (snd (saveManualTimes exKid staleApp)) = Idle
   \<and> snd (saveManualTimes exKid staleApp) \<noteq> staleApp
   \<and> docs (snd (saveManualTimes exKid staleApp)) = docs staleApp"
proof -
  have r: "manualEditRejected staleApp" by code_simp
  have st: "saveStatus staleApp = ClearedOk"
    by (simp add: staleApp_def)
  note res = saveManualTimes_rejected[OF r, of exKid]
  have i: "saveStatus (snd (saveManualTimes exKid staleApp)) = Idle"
    by (simp add: res(2))
  have "snd (saveManualTimes exKid staleApp) \<noteq> staleApp"
  proof
    assume "snd (saveManualTimes exKid staleApp) = staleApp"
    with i st show False by simp
  qed
  moreover have "docs (snd (saveManualTimes exKid staleApp)) = docs staleApp"
    by (simp add: res(2))
  ultimately show ?thesis
    using r st res(1) i by blast
qed

text \<open>
  C6, amended. \<open>saveManualTimes\<close> raises its alert exactly when the trimmed \<open>inTime\<close>
  is empty or not a valid HH:MM string, or the trimmed \<open>outTime\<close> is non-empty and not
  valid, or non-empty with minutes strictly below those of \<open>inTime\<close>. On a rejection
  nothing is written and the state is the one before but for the status line, which is
  emptied. Otherwise, for a signed-in user, the record written is the base record with the
  trimmed \<open>inTime\<close>, the trimmed \<open>outTime\<close> (possibly empty), manual provenance, and
  the trimmed reason only if it is non-empty, with its meals recalculated. \<open>25:00\<close> as
  \<open>inTime\<close>, 09:00 with check-out 08:00, and an empty \<open>inTime\<close> with check-out 10:00
  are rejected.
\<close>

theorem saveManualTimes_rejects_exactly:
  "(fst (saveManualTimes kid s) \<noteq> None) = manualEditRejected s
   \<and> (manualEditRejected s \<longrightarrow>
         snd (saveManualTimes kid s) = s\<lparr>saveStatus := Idle\<rparr>
         \<and> docs (snd (saveManualTimes kid s)) = docs s
         \<and> (saveStatus s = Idle \<longrightarrow> snd (saveManualTimes kid s) = s))
   \<and> (\<not> manualEditRejected s \<and> user s = Some u \<longrightarrow>
         (\<exists>r. saveManualTimes kid s =
                 (None, s\<lparr>docs := (docs s)((u, recordId (curDate s) kid) \<mapsto>
                              stripUndefined (entries r)),
                          saveStatus := SavedOk, editingKidId := None\<rparr>)
              \<and> r = manualRecord (baseRecord kid u s) u s
              \<and> asRecordRow (stripUndefined (entries r)) = r
              \<and> inTime r = Some (trim (editIn s)) \<and> outTime r = Some (trim (editOut s))
              \<and> source r = Some Manual
              \<and> editReason r = (if trim (editReasonText s) \<noteq> []
                                 then Some (trim (editReasonText s))
                                 else editReason (baseRecord kid u s))))
   \<and> (trim (editIn s) = ''25:00'' \<longrightarrow> manualEditRejected s)
   \<and> (trim (editIn s) = ''09:00'' \<and> trim (editOut s) = ''08:00'' \<longrightarrow> manualEditRejected s)
   \<and> (trim (editIn s) = [] \<and> trim (editOut s) = ''10:00'' \<longrightarrow> manualEditRejected s)"
proof -
  have a: "(fst (saveManualTimes kid s) \<noteq> None) = manualEditRejected s"
    using saveManualTimes_rejected(1)[of s kid] saveManualTimes_no_alert[of s kid]
    by (cases "manualEditRejected s") simp_all
  have b: "manualEditRejected s \<longrightarrow>
         snd (saveManualTimes kid s) = s\<lparr>saveStatus := Idle\<rparr>
         \<and> docs (snd (saveManualTimes kid s)) = docs s
         \<and> (saveStatus s = Idle \<longrightarrow> snd (saveManualTimes kid s) = s)"
    using saveManualTimes_rejected(2)[of s kid] by auto
  have c: "\<not> manualEditRejected s \<and> user s = Some u \<longrightarrow>
         (\<exists>r. saveManualTimes kid s =
                 (None, s\<lparr>docs := (docs s)((u, recordId (curDate s) kid) \<mapsto>
                              stripUndefined (entries r)),
                          saveStatus := SavedOk, editingKidId := None\<rparr>)
              \<and> r = manualRecord (baseRecord kid u s) u s
              \<and> asRecordRow (stripUndefined (entries r)) = r
              \<and> inTime r = Some (trim (editIn s)) \<and> outTime r = Some (trim (editOut s))
              \<and> source r = Some Manual
              \<and> editReason r = (if trim (editReasonText s) \<noteq> []
                                 then Some (trim (editReasonText s))
                                 else editReason (baseRecord kid u s)))"
    using saveManualTimes_accepted[of s u kid]
    by (simp add: asRecordRow_roundtrip manualRecord_times)
      (simp add: manualRecord_def calcMeals_others)
  have v1: "\<not> isValidHHMM ''25:00''" by code_simp
  have v2: "nlt (nonNull (toMin (Some ''08:00''))) (nonNull (toMin (Some ''09:00'')))"
    by code_simp
  have d: "trim (editIn s) = ''25:00'' \<longrightarrow> manualEditRejected s"
    using v1 by (simp add: manualEditRejected_def)
  have e: "trim (editIn s) = ''09:00'' \<and> trim (editOut s) = ''08:00'' \<longrightarrow> manualEditRejected s"
    using v2 by (simp add: manualEditRejected_def del: toMin.simps)
  have f: "trim (editIn s) = [] \<and> trim (editOut s) = ''10:00'' \<longrightarrow> manualEditRejected s"
    by (simp add: manualEditRejected_def)
  from a b c d e f show ?thesis by blast
qed


theorem saveManualTimes_rejects_exactly_witness:
  "\<not> manualEditRejected exApp \<and> user exApp = Some ''u1''
   \<and> trim (editIn exApp) = ''08:30'' \<and> trim (editOut exApp) = ''16:00''
   \<and> saveManualTimes exKid exApp =
        (None, exApp\<lparr>docs := (docs exApp)((''u1'', ''2024-03-01_k1'') \<mapsto>
                         stripUndefined (entries savedRow)),
                     saveStatus := SavedOk, editingKidId := None\<rparr>)
   \<and> manualEditRejected backwardsApp
   \<and> fst (saveManualTimes exKid backwardsApp) \<noteq> None
   \<and> snd (saveManualTimes exKid backwardsApp) = backwardsApp
   \<and> manualEditRejected staleApp
   \<and> snd (saveManualTimes exKid staleApp) = staleApp\<lparr>saveStatus := Idle\<rparr>
   \<and> docs (snd (saveManualTimes exKid staleApp)) = docs staleApp"
proof -
  have h1: "\<not> manualEditRejected exApp" by code_simp
  have h2: "user exApp = Some ''u1''" by (rule exApp_fields)
  have t: "trim (editIn exApp) = ''08:30''" "trim (editOut exApp) = ''16:00''"
    by code_simp+
  have m: "manualRecord exRow ''u1'' exApp = savedRow" by code_simp
  have h3: "manualEditRejected backwardsApp" by code_simp
  have i: "saveStatus backwardsApp = Idle"
    by (simp add: backwardsApp_def exApp_def)
  have acc: "saveManualTimes exKid exApp =
        (None, exApp\<lparr>docs := (docs exApp)((''u1'', ''2024-03-01_k1'') \<mapsto>
                         stripUndefined (entries savedRow)),
                     saveStatus := SavedOk, editingKidId := None\<rparr>)"
    using saveManualTimes_rejects_exactly[of exKid exApp "''u1''"] h1 h2
    by (simp add: exApp_fields m)
  have rej: "fst (saveManualTimes exKid backwardsApp) \<noteq> None"
    "snd (saveManualTimes exKid backwardsApp) = backwardsApp"
    using saveManualTimes_rejects_exactly[of exKid backwardsApp "''u1''"] h3 i by simp_all
  have h4: "manualEditRejected staleApp" by code_simp
  have rej': "snd (saveManualTimes exKid staleApp) = staleApp\<lparr>saveStatus := Idle\<rparr>"
    "docs (snd (saveManualTimes exKid staleApp)) = docs staleApp"
    using saveManualTimes_rejects_exactly[of exKid staleApp "''u1''"] h4 by simp_all
  from h1 h2 t acc h3 rej h4 rej' show ?thesis by blast
qed

text \<open>
  C10. \<open>isValidHHMM\<close> puts no bound on the minutes field: on a string of two digits, a
  colon and two digits it is true exactly when hours times 60 plus minutes is below 1440.
  So \<open>09:75\<close>, which \<open>toMin\<close> maps to 615, is valid, and the manual edit accepts it
  and writes it as the \<open>inTime\<close>.
\<close>

theorem isValidHHMM_minutes_unbounded:
  "(isDigit a \<and> isDigit b \<and> isDigit c \<and> isDigit d \<longrightarrow>
      isValidHHMM [a, b, CHR '':'', c, d]
        = ((10 * digitVal a + digitVal b) * 60 + (10 * digitVal c + digitVal d) < 1440))
   \<and> isValidHHMM ''09:75'' \<and> toMin (Some ''09:75'') = Some (Fin 615)
   \<and> (trim (editIn s) = ''09:75'' \<and> trim (editOut s) = [] \<and> user s = Some u \<longrightarrow>
        (\<exists>r. saveManualTimes kid s =
                (None, s\<lparr>docs := (docs s)((u, recordId (curDate s) kid) \<mapsto>
                             stripUndefined (entries r)),
                         saveStatus := SavedOk, editingKidId := None\<rparr>)
             \<and> inTime r = Some ''09:75''))"
proof -
  have a: "isDigit a \<and> isDigit b \<and> isDigit c \<and> isDigit d \<longrightarrow>
      isValidHHMM [a, b, CHR '':'', c, d]
        = ((10 * digitVal a + digitVal b) * 60 + (10 * digitVal c + digitVal d) < 1440)"
  proof
    assume dg: "isDigit a \<and> isDigit b \<and> isDigit c \<and> isDigit d"
    define n where "n = (10 * digitVal a + digitVal b) * 60 + (10 * digitVal c + digitVal d)"
    have tm: "toMin (Some [a, b, CHR '':'', c, d]) = Some (Fin (of_nat n))"
      unfolding n_def using dg by (intro toMin_HHMM) simp_all
    have "isValidHHMM [a, b, CHR '':'', c, d] = ((of_nat n :: rat) < of_nat 1440)"
      using dg by (simp add: isValidHHMM_def tm nge_def del: toMin.simps)
    also have "\<dots> = (n < 1440)"
      by (simp only: of_nat_less_iff)
    finally show "isValidHHMM [a, b, CHR '':'', c, d]
        = ((10 * digitVal a + digitVal b) * 60 + (10 * digitVal c + digitVal d) < 1440)"
      unfolding n_def .
  qed
  have v: "isValidHHMM ''09:75''" by code_simp
  have m: "toMin (Some ''09:75'') = Some (Fin 615)" by code_simp
  have c: "trim (editIn s) = ''09:75'' \<and> trim (editOut s) = [] \<and> user s = Some u \<longrightarrow>
        (\<exists>r. saveManualTimes kid s =
                (None, s\<lparr>docs := (docs s)((u, recordId (curDate s) kid) \<mapsto>
                             stripUndefined (entries r)),
                         saveStatus := SavedOk, editingKidId := None\<rparr>)
             \<and> inTime r = Some ''09:75'')"
  proof
    assume h: "trim (editIn s) = ''09:75'' \<and> trim (editOut s) = [] \<and> user s = Some u"
    then have nr: "\<not> manualEditRejected s"
      using v by (simp add: manualEditRejected_def)
    from saveManualTimes_accepted[OF nr, of u kid] h manualRecord_times(1)[of "baseRecord kid u s" u s]
    show "\<exists>r. saveManualTimes kid s =
                (None, s\<lparr>docs := (docs s)((u, recordId (curDate s) kid) \<mapsto>
                             stripUndefined (entries r)),
                         saveStatus := SavedOk, editingKidId := None\<rparr>)
             \<and> inTime r = Some ''09:75''"
      by auto
  qed
  from a v m c show ?thesis by blast
qed

theorem isValidHHMM_minutes_unbounded_witness:
  "isDigit CHR ''0'' \<and> isDigit CHR ''9'' \<and> isDigit CHR ''7'' \<and> isDigit CHR ''5''
   \<and> isValidHHMM ''09:75''
   \<and> (10 * digitVal CHR ''0'' + digitVal CHR ''9'') * 60
        + (10 * digitVal CHR ''7'' + digitVal CHR ''5'') = 615
   \<and> trim (editIn looseApp) = ''09:75'' \<and> trim (editOut looseApp) = []
   \<and> user looseApp = Some ''u1''
   \<and> (\<exists>r. saveManualTimes exKid looseApp =
                (None, looseApp\<lparr>docs := (docs looseApp)((''u1'', ''2024-03-01_k1'') \<mapsto>
                             stripUndefined (entries r)),
                         saveStatus := SavedOk, editingKidId := None\<rparr>)
             \<and> inTime r = Some ''09:75'')"
proof -
  have dg: "isDigit CHR ''0'' \<and> isDigit CHR ''9'' \<and> isDigit CHR ''7'' \<and> isDigit CHR ''5''"
    by code_simp
  have n: "(10 * digitVal CHR ''0'' + digitVal CHR ''9'') * 60
        + (10 * digitVal CHR ''7'' + digitVal CHR ''5'') = 615"
    by code_simp
  have t: "trim (editIn looseApp) = ''09:75''" "trim (editOut looseApp) = []"
    by code_simp+
  have u: "user looseApp = Some ''u1''"
    by (simp add: looseApp_def exApp_fields)
  have cd: "recordId (curDate looseApp) exKid = ''2024-03-01_k1''"
    by (simp add: looseApp_def exApp_fields)
  from isValidHHMM_minutes_unbounded[of "CHR ''0''" "CHR ''9''" "CHR ''7''" "CHR ''5''" looseApp
      "''u1''" exKid] dg n t u cd
  show ?thesis by simp
qed

lemma baseRecord_stored:
  "docs s (u, recordId (curDate s) kid) = Some d \<Longrightarrow> baseRecord kid u s = asRecordRow d"
  by (simp add: baseRecord_def)

lemma leavesMealsAlone_checkOutPatch: "leavesMealsAlone (checkOutPatch now s)"
  by (simp add: leavesMealsAlone_def checkOutPatch_def)

lemma checkOut_signed_in:
  assumes "user s = Some u"
  shows "checkOut now kid s =
           (None, s\<lparr>docs := (docs s)((u, recordId (curDate s) kid) \<mapsto>
                        stripUndefined (entries (mergedRecord (baseRecord kid u s)
                                                   (checkOutPatch now s))))\<rparr>)"
  using upsertRecord_signed_in[OF assms, of kid "checkOutPatch now s"]
  by (simp add: checkOut_def)

lemma checkInPatch_supplies: "suppliesValidInTime (checkInPatch now s) = isValidHHMM now"
  by (simp add: suppliesValidInTime_def checkInPatch_def)

lemma manualPatch_supplies:
  "\<not> manualEditRejected s \<Longrightarrow> suppliesValidInTime (manualPatch s)"
  by (auto simp: suppliesValidInTime_def manualPatch_def manualEditRejected_def Let_def)

lemma restsCleared_clearPatch:
  "user s = Some u \<Longrightarrow> restsCleared (mergedRecord base (clearPatch s))"
  by (simp add: merged_clearPatch restsCleared_def mealsZero_def)

lemma quiet_run_keeps_cleared:
  assumes u: "user s = Some u"
    and d: "docs s (u, recordId (curDate s) kid) = Some d"
    and c: "restsCleared (asRecordRow d)"
    and p: "patchOf op s = Some p"
    and q: "\<not> suppliesValidInTime p"
    and k: "clockCheckIn op"
  shows "\<exists>s'. perform op kid s = (None, s')
           \<and> user s' = Some u \<and> curDate s' = curDate s
           \<and> docs s' (u, recordId (curDate s) kid)
               = Some (stripUndefined (entries (mergedRecord (asRecordRow d) p)))
           \<and> restsCleared (mergedRecord (asRecordRow d) p)"
proof (cases op)
  case (CheckIn now)
  have "p = checkInPatch now s" "isValidHHMM now"
    using p k CheckIn by simp_all
  with q show ?thesis
    by (simp add: checkInPatch_supplies)
next
  case (CheckOut now)
  have pe: "p = checkOutPatch now s"
    using p CheckOut by simp
  have "restsCleared (mergedRecord (asRecordRow d) p)"
    unfolding pe using leavesMealsAlone_checkOutPatch c by (rule merged_keeps_cleared)
  then show ?thesis
    using u by (simp add: CheckOut checkOut_signed_in[OF u] baseRecord_stored[OF d] pe)
next
  case Clear
  have pe: "p = clearPatch s"
    using p Clear by simp
  have "restsCleared (mergedRecord (asRecordRow d) p)"
    unfolding pe using u by (rule restsCleared_clearPatch)
  then show ?thesis
    using u by (simp add: Clear clearTimes_signed_in[OF u] baseRecord_stored[OF d] pe)
next
  case ManualEdit
  have "\<not> manualEditRejected s" "p = manualPatch s"
    using p ManualEdit by (simp_all split: if_splits)
  with q show ?thesis
    by (simp add: manualPatch_supplies)
qed


text \<open>
  C7. For a signed-in user and any base record, the Clear operation persists a record
  whose four meal flags are 0 and whose \<open>inTime\<close> and \<open>outTime\<close> are the empty string.
  From any state whose stored record is cleared in this way (flags 0, no check-in time),
  every run of the reconciler that one of the four operations starts with a patch that
  supplies no valid \<open>inTime\<close> persists a record that is cleared still, its four flags at
  0; so the flags stay at 0 through any number of such runs.
\<close>

theorem clear_then_no_recalculation:
  "(user s = Some u \<longrightarrow>
      (\<exists>r1 s1. clearTimes kid s = (None, s1)
          \<and> user s1 = Some u \<and> curDate s1 = curDate s
          \<and> docs s1 (u, recordId (curDate s) kid) = Some (stripUndefined (entries r1))
          \<and> asRecordRow (stripUndefined (entries r1)) = r1
          \<and> breakfast r1 = Fin 0 \<and> amSnack r1 = Fin 0 \<and> lunch r1 = Fin 0 \<and> pmSnack r1 = Fin 0
          \<and> inTime r1 = Some [] \<and> outTime r1 = Some []
          \<and> restsCleared r1))
   \<and> (user s2 = Some u \<and> docs s2 (u, recordId (curDate s2) kid) = Some d
        \<and> restsCleared (asRecordRow d)
        \<and> patchOf op s2 = Some p \<and> \<not> suppliesValidInTime p \<and> clockCheckIn op \<longrightarrow>
      (\<exists>r3 s3. perform op kid s2 = (None, s3)
          \<and> user s3 = Some u \<and> curDate s3 = curDate s2
          \<and> docs s3 (u, recordId (curDate s2) kid) = Some (stripUndefined (entries r3))
          \<and> asRecordRow (stripUndefined (entries r3)) = r3
          \<and> r3 = mergedRecord (asRecordRow d) p
          \<and> breakfast r3 = Fin 0 \<and> amSnack r3 = Fin 0 \<and> lunch r3 = Fin 0 \<and> pmSnack r3 = Fin 0
          \<and> restsCleared r3))"
proof -
  have a: "user s = Some u \<longrightarrow>
      (\<exists>r1 s1. clearTimes kid s = (None, s1)
          \<and> user s1 = Some u \<and> curDate s1 = curDate s
          \<and> docs s1 (u, recordId (curDate s) kid) = Some (stripUndefined (entries r1))
          \<and> asRecordRow (stripUndefined (entries r1)) = r1
          \<and> breakfast r1 = Fin 0 \<and> amSnack r1 = Fin 0 \<and> lunch r1 = Fin 0 \<and> pmSnack r1 = Fin 0
          \<and> inTime r1 = Some [] \<and> outTime r1 = Some []
          \<and> restsCleared r1)"
  proof
    assume u: "user s = Some u"
    define r1 where "r1 = mergedRecord (baseRecord kid u s) (clearPatch s)"
    have f: "breakfast r1 = Fin 0" "amSnack r1 = Fin 0" "lunch r1 = Fin 0" "pmSnack r1 = Fin 0"
      "inTime r1 = Some []" "outTime r1 = Some []"
      unfolding r1_def merged_clearPatch[OF u] by simp_all
    have c: "restsCleared r1"
      unfolding r1_def using u by (rule restsCleared_clearPatch)
    show "\<exists>r1 s1. clearTimes kid s = (None, s1)
          \<and> user s1 = Some u \<and> curDate s1 = curDate s
          \<and> docs s1 (u, recordId (curDate s) kid) = Some (stripUndefined (entries r1))
          \<and> asRecordRow (stripUndefined (entries r1)) = r1
          \<and> breakfast r1 = Fin 0 \<and> amSnack r1 = Fin 0 \<and> lunch r1 = Fin 0 \<and> pmSnack r1 = Fin 0
          \<and> inTime r1 = Some [] \<and> outTime r1 = Some []
          \<and> restsCleared r1"
      using f c u
      by (intro exI[of _ r1]) (simp add: clearTimes_signed_in[OF u] r1_def asRecordRow_roundtrip)
  qed
  have b: "user s2 = Some u \<and> docs s2 (u, recordId (curDate s2) kid) = Some d
        \<and> restsCleared (asRecordRow d)
        \<and> patchOf op s2 = Some p \<and> \<not> suppliesValidInTime p \<and> clockCheckIn op \<longrightarrow>
      (\<exists>r3 s3. perform op kid s2 = (None, s3)
          \<and> user s3 = Some u \<and> curDate s3 = curDate s2
          \<and> docs s3 (u, recordId (curDate s2) kid) = Some (stripUndefined (entries r3))
          \<and> asRecordRow (stripUndefined (entries r3)) = r3
          \<and> r3 = mergedRecord (asRecordRow d) p
          \<and> breakfast r3 = Fin 0 \<and> amSnack r3 = Fin 0 \<and> lunch r3 = Fin 0 \<and> pmSnack r3 = Fin 0
          \<and> restsCleared r3)"
  proof
    assume h: "user s2 = Some u \<and> docs s2 (u, recordId (curDate s2) kid) = Some d
        \<and> restsCleared (asRecordRow d)
        \<and> patchOf op s2 = Some p \<and> \<not> suppliesValidInTime p \<and> clockCheckIn op"
    then obtain s3 where s3: "perform op kid s2 = (None, s3)"
      "user s3 = Some u" "curDate s3 = curDate s2"
      "docs s3 (u, recordId (curDate s2) kid)
         = Some (stripUndefined (entries (mergedRecord (asRecordRow d) p)))"
      "restsCleared (mergedRecord (asRecordRow d) p)"
      using quiet_run_keeps_cleared[of s2 u kid d op p] by blast
    from s3(5) have z: "mealsZero (mergedRecord (asRecordRow d) p)"
      by (simp add: restsCleared_def)
    show "\<exists>r3 s3. perform op kid s2 = (None, s3)
          \<and> user s3 = Some u \<and> curDate s3 = curDate s2
          \<and> docs s3 (u, recordId (curDate s2) kid) = Some (stripUndefined (entries r3))
          \<and> asRecordRow (stripUndefined (entries r3)) = r3
          \<and> r3 = mergedRecord (asRecordRow d) p
          \<and> breakfast r3 = Fin 0 \<and> amSnack r3 = Fin 0 \<and> lunch r3 = Fin 0 \<and> pmSnack r3 = Fin 0
          \<and> restsCleared r3"
      using s3 z asRecordRow_roundtrip[of "mergedRecord (asRecordRow d) p"]
      unfolding mealsZero_def by blast
  qed
  from a b show ?thesis by blast
qed

lemma clearTimes_exApp: "clearTimes exKid exApp = (None, clearedApp)"
proof -
  have "mergedRecord exRow (clearPatch exApp) = clearedRow"
    unfolding merged_clearPatch[OF exApp_fields(1)] by (simp add: exRow_def clearedRow_def)
  then show ?thesis
    unfolding clearTimes_signed_in[OF exApp_fields(1)] by (simp add: exApp_fields clearedApp_def)
qed

theorem clear_then_no_recalculation_witness:
  "user exApp = Some ''u1''
   \<and> clearTimes exKid exApp = (None, clearedApp)
   \<and> user clearedApp = Some ''u1''
   \<and> docs clearedApp (''u1'', ''2024-03-01_k1'') = Some (stripUndefined (entries clearedRow))
   \<and> breakfast clearedRow = Fin 0 \<and> amSnack clearedRow = Fin 0 \<and> lunch clearedRow = Fin 0
   \<and> pmSnack clearedRow = Fin 0 \<and> inTime clearedRow = Some [] \<and> outTime clearedRow = Some []
   \<and> restsCleared (asRecordRow (stripUndefined (entries clearedRow)))
   \<and> patchOf (CheckOut ''17:00'') clearedApp = Some (checkOutPatch ''17:00'' clearedApp)
   \<and> \<not> suppliesValidInTime (checkOutPatch ''17:00'' clearedApp)
   \<and> clockCheckIn (CheckOut ''17:00'')
   \<and> (\<exists>r3 s3. perform (CheckOut ''17:00'') exKid clearedApp = (None, s3)
          \<and> docs s3 (''u1'', ''2024-03-01_k1'') = Some (stripUndefined (entries r3))
          \<and> breakfast r3 = Fin 0 \<and> amSnack r3 = Fin 0 \<and> lunch r3 = Fin 0 \<and> pmSnack r3 = Fin 0
          \<and> restsCleared r3)"
proof -
  have u: "user exApp = Some ''u1''" by (rule exApp_fields)
  have u2: "user clearedApp = Some ''u1''" and cd: "curDate clearedApp = ''2024-03-01''"
    by (simp_all add: clearedApp_def exApp_fields)
  have d: "docs clearedApp (''u1'', ''2024-03-01_k1'') = Some (stripUndefined (entries clearedRow))"
    by (simp add: clearedApp_def)
  have f: "breakfast clearedRow = Fin 0" "amSnack clearedRow = Fin 0" "lunch clearedRow = Fin 0"
    "pmSnack clearedRow = Fin 0" "inTime clearedRow = Some []" "outTime clearedRow = Some []"
    by (simp_all add: clearedRow_def)
  have c: "restsCleared (asRecordRow (stripUndefined (entries clearedRow)))"
    using f by (simp add: asRecordRow_roundtrip restsCleared_def mealsZero_def)
  have p: "patchOf (CheckOut ''17:00'') clearedApp = Some (checkOutPatch ''17:00'' clearedApp)"
    by simp
  have q: "\<not> suppliesValidInTime (checkOutPatch ''17:00'' clearedApp)"
    by (simp add: suppliesValidInTime_def checkOutPatch_def)
  have k: "clockCheckIn (CheckOut ''17:00'')" by simp
  have r: "\<exists>r3 s3. perform (CheckOut ''17:00'') exKid clearedApp = (None, s3)
          \<and> docs s3 (''u1'', ''2024-03-01_k1'') = Some (stripUndefined (entries r3))
          \<and> breakfast r3 = Fin 0 \<and> amSnack r3 = Fin 0 \<and> lunch r3 = Fin 0 \<and> pmSnack r3 = Fin 0
          \<and> restsCleared r3"
    using clear_then_no_recalculation[of exApp "''u1''" exKid clearedApp
        "stripUndefined (entries clearedRow)" "CheckOut ''17:00''"
        "checkOutPatch ''17:00'' clearedApp"] u2 d c p q k
    by (simp add: cd exApp_fields) blast
  from u clearTimes_exApp u2 d f c p q k r show ?thesis by blast
qed

section \<open>Properties of rate resolution\<close>

lemma set_insertBy: "set (insertBy cmp x ys) = insert x (set ys)"
  by (induction ys) auto

lemma set_sortBy: "set (sortBy cmp xs) = set xs"
  by (induction xs) (simp_all add: sortBy_def set_insertBy)

lemma nle_iff: "nle a b \<longleftrightarrow> (\<exists>p q. a = Fin p \<and> b = Fin q \<and> p \<le> q)"
  by (cases a; cases b) auto

lemma insertBy_nsub_sorted:
  assumes "sorted_wrt nle ys" "\<forall>k \<in> set ys. k \<noteq> NaN" "x \<noteq> NaN"
  shows "sorted_wrt nle (insertBy nsub x ys)"
  using assms
proof (induction ys)
  case Nil
  then show ?case by simp
next
  case (Cons y ys)
  obtain p q where pq: "x = Fin p" "y = Fin q"
    using Cons.prems by (cases x; cases y) auto
  show ?case
  proof (cases "q < p")
    case True
    have "sorted_wrt nle (insertBy nsub x ys)"
      using Cons by simp
    moreover have "\<forall>k \<in> set (insertBy nsub x ys). nle y k"
      using Cons.prems(1) True by (auto simp: set_insertBy pq)
    ultimately show ?thesis
      using True by (simp add: pq)
  next
    case False
    have "\<forall>k \<in> set ys. nle x k"
    proof
      fix k assume k: "k \<in> set ys"
      from k Cons.prems(1) have "nle y k" by simp
      then obtain r where r: "k = Fin r" "q \<le> r"
        unfolding nle_iff pq by auto
      with False show "nle x k" by (simp add: pq)
    qed
    then show ?thesis
      using False Cons.prems(1) by (simp add: pq)
  qed
qed

lemma sortBy_nsub_sorted:
  "\<forall>k \<in> set xs. k \<noteq> NaN \<Longrightarrow> sorted_wrt nle (sortBy nsub xs)"
proof (induction xs)
  case Nil
  then show ?case by (simp add: sortBy_def)
next
  case (Cons x xs)
  have "sorted_wrt nle (sortBy nsub xs)" using Cons by simp
  moreover have "\<forall>k \<in> set (sortBy nsub xs). k \<noteq> NaN"
    using Cons.prems by (simp add: set_sortBy)
  moreover have "x \<noteq> NaN" using Cons.prems by simp
  ultimately have "sorted_wrt nle (insertBy nsub x (sortBy nsub xs))"
    by (rule insertBy_nsub_sorted)
  then show ?case by (simp add: sortBy_def)
qed

lemma nle_trans: "nle a b \<Longrightarrow> nle b c \<Longrightarrow> nle a c"
  by (cases a; cases b; cases c) auto

lemma nle_refl: "a \<noteq> NaN \<Longrightarrow> nle a a"
  by (cases a) auto

lemma bestYear_sorted:
  assumes "sorted_wrt nle ys" "\<forall>k \<in> set ys. k \<noteq> NaN"
    and "\<forall>b. best = Some b \<longrightarrow> nle b y \<and> (\<forall>k \<in> set ys. nle b k)"
  shows "(bestYear ys y best = None \<longrightarrow> best = None \<and> (\<forall>k \<in> set ys. \<not> nle k y))
         \<and> (\<forall>b. bestYear ys y best = Some b \<longrightarrow>
                nle b y \<and> (b \<in> set ys \<or> best = Some b)
                \<and> (\<forall>k \<in> set ys. nle k y \<longrightarrow> nle k b))"
  using assms
proof (induction ys arbitrary: best)
  case Nil
  then show ?case by auto
next
  case (Cons yr rest)
  have srt: "sorted_wrt nle rest" and fin: "\<forall>k \<in> set rest. k \<noteq> NaN"
    and low: "\<forall>k \<in> set rest. nle yr k" and yrf: "yr \<noteq> NaN"
    using Cons.prems(1,2) by simp_all
  show ?case
  proof (cases "nle yr y")
    case True
    have pre: "\<forall>b. Some yr = Some b \<longrightarrow> nle b y \<and> (\<forall>k \<in> set rest. nle b k)"
      using True low by simp
    note ih = Cons.IH[OF srt fin pre]
    have eq: "bestYear (yr # rest) y best = bestYear rest y (Some yr)"
      using True by simp
    show ?thesis
      unfolding eq using ih low nle_refl[OF yrf] by auto
  next
    case False
    have none: "\<forall>k \<in> set (yr # rest). \<not> nle k y"
      using False low by (auto dest: nle_trans)
    have eq: "bestYear (yr # rest) y best = best"
      using False by simp
    show ?thesis
      unfolding eq using none Cons.prems(3) by auto
  qed
qed

lemma bestYear_years:
  fixes m :: rates_map
  defines "years \<equiv> sortBy nsub (filter isFinite (map fst m))"
  shows "(bestYear years y None = None \<longrightarrow> (\<forall>k \<in> fst ` set m. \<not> nle k y))
         \<and> (\<forall>b. bestYear years y None = Some b \<longrightarrow>
                nle b y \<and> b \<in> fst ` set m \<and> (\<forall>k \<in> fst ` set m. nle k y \<longrightarrow> nle k b))"
proof -
  have st: "set years = {k \<in> fst ` set m. k \<noteq> NaN}"
    by (auto simp: years_def set_sortBy isFinite_def)
  have fin: "\<forall>k \<in> set (filter isFinite (map fst m)). k \<noteq> NaN"
    by (simp add: isFinite_def)
  have srt: "sorted_wrt nle years"
    unfolding years_def using fin by (rule sortBy_nsub_sorted)
  have fin': "\<forall>k \<in> set years. k \<noteq> NaN"
    by (simp add: st)
  have mem: "k \<in> set years" if "k \<in> fst ` set m" "nle k y" for k
  proof -
    from that(2) have "k \<noteq> NaN" by (auto simp: nle_iff)
    with that(1) show ?thesis by (simp add: st)
  qed
  have sub: "k \<in> fst ` set m" if "k \<in> set years" for k
    using that by (simp add: st)
  note bs = bestYear_sorted[OF srt fin', of None y]
  have a: "bestYear years y None = None \<longrightarrow> (\<forall>k \<in> fst ` set m. \<not> nle k y)"
    using bs mem by blast
  have b: "\<forall>b. bestYear years y None = Some b \<longrightarrow>
                nle b y \<and> b \<in> fst ` set m \<and> (\<forall>k \<in> fst ` set m. nle k y \<longrightarrow> nle k b)"
    using bs mem sub by blast
  from a b show ?thesis by blast
qed

lemma getRatesForYear_exact: "map_of m y = Some r \<Longrightarrow> getRatesForYear m y = r"
  by (simp add: getRatesForYear_def)

lemma getRatesForYear_prior:
  assumes "map_of m y = None" "\<exists>k \<in> fst ` set m. nle k y"
  shows "\<exists>b \<in> fst ` set m. nle b y \<and> (\<forall>k \<in> fst ` set m. nle k y \<longrightarrow> nle k b)
           \<and> map_of m b = Some (getRatesForYear m y)"
proof -
  let ?years = "sortBy nsub (filter isFinite (map fst m))"
  note bk = bestYear_years[of m y]
  from bk assms(2) obtain b where b: "bestYear ?years y None = Some b"
    by (cases "bestYear ?years y None") auto
  with bk have p: "nle b y" "b \<in> fst ` set m" "\<forall>k \<in> fst ` set m. nle k y \<longrightarrow> nle k b"
    by auto
  from p(2) obtain r where r: "map_of m b = Some r"
    by (cases "map_of m b") (auto simp: map_of_eq_None_iff)
  have "getRatesForYear m y = r"
    using assms(1) b r by (simp add: getRatesForYear_def)
  with p r show ?thesis by auto
qed

lemma getRatesForYear_zero:
  assumes "map_of m y = None" "\<forall>k \<in> fst ` set m. \<not> nle k y"
  shows "getRatesForYear m y = zeroRates y"
proof -
  let ?years = "sortBy nsub (filter isFinite (map fst m))"
  note bk = bestYear_years[of m y]
  have "bestYear ?years y None = None"
  proof (cases "bestYear ?years y None")
    case None
    then show ?thesis .
  next
    case (Some b)
    with bk have "nle b y" "b \<in> fst ` set m" by auto
    with assms(2) show ?thesis by auto
  qed
  then show ?thesis
    using assms(1) by (simp add: getRatesForYear_def)
qed

text \<open>
  C2. For every target year \<open>y\<close> and every mapping from years to rate sets,
  \<open>getRatesForYear\<close> returns the rate set stored under \<open>y\<close> when there is one;
  otherwise the rate set of the greatest stored year that is at most \<open>y\<close> when there
  is such a year (so no stored year above \<open>y\<close> is selected); otherwise the all-zero
  rate set stamped with \<open>y\<close>. With rates stored for exactly 2022 and 2024, resolving
  2023 gives the 2022 set, 2021 the zero set and 2024 the stored 2024 set.
\<close>

theorem getRatesForYear_resolution:
  "(map_of m y = Some r \<longrightarrow> getRatesForYear m y = r)
   \<and> (map_of m y = None \<and> (\<exists>k \<in> fst ` set m. nle k y) \<longrightarrow>
        (\<exists>b \<in> fst ` set m. nle b y \<and> (\<forall>k \<in> fst ` set m. nle k y \<longrightarrow> nle k b)
            \<and> map_of m b = Some (getRatesForYear m y)))
   \<and> (map_of m y = None \<and> (\<forall>k \<in> fst ` set m. \<not> nle k y) \<longrightarrow>
        getRatesForYear m y =
          \<lparr>rate_year = y, rate_breakfast = Fin 0, rate_snack = Fin 0, rate_lunch = Fin 0,
           rate_updatedAt = None\<rparr>)
   \<and> getRatesForYear exRates (Fin 2023) = rates2022
   \<and> getRatesForYear exRates (Fin 2021) =
        \<lparr>rate_year = Fin 2021, rate_breakfast = Fin 0, rate_snack = Fin 0, rate_lunch = Fin 0,
         rate_updatedAt = None\<rparr>
   \<and> getRatesForYear exRates (Fin 2024) = rates2024"
proof -
  have e1: "getRatesForYear exRates (Fin 2023) = rates2022" by code_simp
  have e2: "getRatesForYear exRates (Fin 2021) =
        \<lparr>rate_year = Fin 2021, rate_breakfast = Fin 0, rate_snack = Fin 0, rate_lunch = Fin 0,
         rate_updatedAt = None\<rparr>" by code_simp
  have e3: "getRatesForYear exRates (Fin 2024) = rates2024" by code_simp
  show ?thesis
    using getRatesForYear_exact[of m y r] getRatesForYear_prior[of m y]
      getRatesForYear_zero[of m y] e1 e2 e3
    unfolding zeroRates_def by blast
qed

theorem getRatesForYear_resolution_witness:
  "map_of exRates (Fin 2024) = Some rates2024
   \<and> getRatesForYear exRates (Fin 2024) = rates2024
   \<and> map_of exRates (Fin 2023) = None \<and> Fin 2022 \<in> fst ` set exRates
   \<and> nle (Fin 2022) (Fin 2023) \<and> \<not> nle (Fin 2024) (Fin 2023)
   \<and> map_of exRates (Fin 2022) = Some (getRatesForYear exRates (Fin 2023))
   \<and> map_of exRates (Fin 2021) = None
   \<and> \<not> nle (Fin 2022) (Fin 2021) \<and> \<not> nle (Fin 2024) (Fin 2021)
   \<and> getRatesForYear exRates (Fin 2021) =
        \<lparr>rate_year = Fin 2021, rate_breakfast = Fin 0, rate_snack = Fin 0, rate_lunch = Fin 0,
         rate_updatedAt = None\<rparr>"
proof -
  have k: "fst ` set exRates = {Fin 2024, Fin 2022}"
    by (simp add: exRates_def)
  have h1: "map_of exRates (Fin 2024) = Some rates2024"
    by (simp add: exRates_def)
  have h2: "map_of exRates (Fin 2023) = None" "map_of exRates (Fin 2021) = None"
    by (simp_all add: exRates_def)
  have c1: "getRatesForYear exRates (Fin 2024) = rates2024"
    using getRatesForYear_resolution[of exRates "Fin 2024" rates2024] h1 by blast
  have "\<exists>b \<in> fst ` set exRates. nle b (Fin 2023)
            \<and> (\<forall>k \<in> fst ` set exRates. nle k (Fin 2023) \<longrightarrow> nle k b)
            \<and> map_of exRates b = Some (getRatesForYear exRates (Fin 2023))"
    using getRatesForYear_resolution[of exRates "Fin 2023"] h2(1) by (simp add: k)
  then have c2: "map_of exRates (Fin 2022) = Some (getRatesForYear exRates (Fin 2023))"
    by (auto simp: k)
  have c3: "getRatesForYear exRates (Fin 2021) =
        \<lparr>rate_year = Fin 2021, rate_breakfast = Fin 0, rate_snack = Fin 0, rate_lunch = Fin 0,
         rate_updatedAt = None\<rparr>"
    using getRatesForYear_resolution[of exRates "Fin 2021"] h2(2) by (simp add: k)
  show ?thesis
    using h1 h2 c1 c2 c3 by (simp add: k)
qed

end
